theory Spec2Isabelle
  imports Main "HOL-Library.Char_ord" "HOL-Library.List_Lexorder" "HOL-Library.Sublist"
    "HOL-Library.Multiset"
begin

section \<open>Data model\<close>

text \<open>
  The server of \<^verbatim>\<open>src/index.ts\<close> keeps its persistent data in four tables (the
  entities View, Match, Message and User), its live connections in the object
  \<^verbatim>\<open>wsUsers\<close>, and hands push notifications to a queue. User identifiers are strings,
  ordered as lists of characters by their character codes.
\<close>

type_synonym userId = string

record View =
  viewerId :: userId
  targetId :: userId
  liked :: bool

record Match =
  userId1 :: userId
  userId2 :: userId
  read1 :: bool
  read2 :: bool
  unmatched :: bool

record Message =
  senderId :: userId
  recipientId :: userId
  msg_text :: string
  createdAt :: int

record User =
  tokenVersion :: int
  numLikes :: int

text \<open>An entry of \<^verbatim>\<open>wsUsers\<close>: the socket (a handle) and the chat the user has open.\<close>

record ws_entry =
  ws :: nat
  openChatUserId :: "userId option"

datatype ws_event =
  new_message Message
  | new_match userId userId
  | unmatch userId
  | new_like

datatype push_type = push_message | push_match

record push_job =
  idToSendTo :: userId
  otherId :: userId
  job_type :: push_type
  job_text :: "string option"

text \<open>
  The state: the tables, the connection registry, the frames given to \<^verbatim>\<open>ws.send\<close>
  (socket handle and payload, oldest first) and the jobs given to
  \<^verbatim>\<open>queuePushNotifToSend\<close> (oldest first).
\<close>

record state =
  user_tbl :: "userId \<rightharpoonup> User"
  view_tbl :: "View list"
  match_tbl :: "Match list"
  message_tbl :: "Message list"
  wsUsers :: "userId \<rightharpoonup> ws_entry"
  wsSent :: "(nat \<times> ws_event) list"
  pushQueue :: "push_job list"

text \<open>
  The column defaults of a Match row. The entity declaration is not among the sources, so
  the values \<^verbatim>\<open>Match.insert\<close> gives to the columns it is not told are a parameter.
\<close>

record match_defaults =
  default_read1 :: bool
  default_read2 :: bool
  default_unmatched :: bool

section \<open>Helpers\<close>

text \<open>\<^verbatim>\<open>String.prototype.includes\<close>: the pattern occurs somewhere in the string.\<close>

fun str_includes :: "string \<Rightarrow> string \<Rightarrow> bool" where
  "str_includes [] p = (p = [])"
| "str_includes (c # cs) p = (prefix p (c # cs) \<or> str_includes cs p)"

text \<open>
  Modelled from the spec: \<^verbatim>\<open>getUserIdOrder\<close> of \<^verbatim>\<open>./utils\<close> is not among the sources.
  The spec stores a Match canonically, the smaller identifier of the agreed total order
  first; here the order is the one of strings.
\<close>

definition getUserIdOrder :: "userId \<Rightarrow> userId \<Rightarrow> userId \<times> userId" where
  "getUserIdOrder a b = (if b < a then (b, a) else (a, b))"

text \<open>
  \<^verbatim>\<open>wsSend\<close>: a frame for the user's socket when the user is in the registry, nothing
  otherwise. The registry is keyed by user identifiers only.
\<close>

definition wsSend :: "userId \<Rightarrow> ws_event \<Rightarrow> state \<Rightarrow> state" where
  "wsSend key v s =
     (case wsUsers s key of
        Some e \<Rightarrow> s\<lparr>wsSent := wsSent s @ [(ws e, v)]\<rparr>
      | None \<Rightarrow> s)"

subsection \<open>The store\<close>

definition View_findOne :: "View list \<Rightarrow> userId \<Rightarrow> userId \<Rightarrow> bool \<Rightarrow> View option" where
  "View_findOne vs viewer target l =
     find (\<lambda>v. viewerId v = viewer \<and> targetId v = target \<and> liked v = l) vs"

text \<open>
  Modelled from the spec: the declaration of the View entity is not among the sources. The
  spec makes a View unique per (viewer, target), and a second insert for the pair fails; the
  message is the one the store gives for a violated unique constraint.
\<close>

definition View_insert :: "View list \<Rightarrow> View \<Rightarrow> string + View list" where
  "View_insert vs v =
     (if \<exists>w \<in> set vs. viewerId w = viewerId v \<and> targetId w = targetId v
      then Inl ''duplicate key value violates unique constraint''
      else Inr (vs @ [v]))"

definition Match_insert :: "match_defaults \<Rightarrow> Match list \<Rightarrow> userId \<times> userId \<Rightarrow> Match list" where
  "Match_insert d ms ids =
     ms @ [\<lparr>userId1 = fst ids, userId2 = snd ids, read1 = default_read1 d,
            read2 = default_read2 d, unmatched = default_unmatched d\<rparr>]"

definition Match_delete :: "Match list \<Rightarrow> userId \<times> userId \<Rightarrow> Match list" where
  "Match_delete ms ids = filter (\<lambda>m. \<not> (userId1 m = fst ids \<and> userId2 m = snd ids)) ms"

text \<open>An update of the rows that meet the criteria; the other rows stay as they are.\<close>

definition Match_update :: "(Match \<Rightarrow> bool) \<Rightarrow> (Match \<Rightarrow> Match) \<Rightarrow> Match list \<Rightarrow> Match list" where
  "Match_update crit upd ms = map (\<lambda>m. if crit m then upd m else m) ms"

definition User_incLikes :: "userId \<Rightarrow> state \<Rightarrow> state" where
  "User_incLikes u s =
     (case user_tbl s u of
        Some r \<Rightarrow> s\<lparr>user_tbl := (user_tbl s)(u \<mapsto> r\<lparr>numLikes := numLikes r + 1\<rparr>)\<rparr>
      | None \<Rightarrow> s)"

section \<open>POST /view\<close>

record view_response =
  match :: bool
  ok :: bool

text \<open>
  A failure of the store during the request, other than the unique constraint (a lost
  connection, say), with its message: of the lookup of the reciprocal like, of the insert
  of the View, or of the insert of the Match.
\<close>

datatype view_fault =
  findOne_rejects string
  | insert_rejects string
  | Match_insert_rejects string

text \<open>
  The two queries of \<^verbatim>\<open>Promise.all\<close>, both issued before either is awaited: the lookup
  of the reciprocal like (only for a like) and the insert of the actor's View. The lookup
  reads the table as it is before the insert, the order in which the source issues the
  two; for an actor other than the target they touch different rows and the order does not
  matter. The insert writes its row unless it is rejected, whatever becomes of the lookup.
  The result is the rejection \<^verbatim>\<open>Promise.all\<close> reports (the one of the lookup when both
  reject) or the View found, and the View table after.
\<close>

definition view_queries ::
  "view_fault option \<Rightarrow> userId \<Rightarrow> userId \<Rightarrow> bool \<Rightarrow> state \<Rightarrow> (string + View option) \<times> View list" where
  "view_queries fault me userId l s =
     (let found = (if l
                   then (case fault of
                           Some (findOne_rejects msg) \<Rightarrow> Inl msg
                         | _ \<Rightarrow> Inr (View_findOne (view_tbl s) userId me True))
                   else Inr None);
          inserted = (case fault of
                        Some (insert_rejects msg) \<Rightarrow> Inl msg
                      | _ \<Rightarrow> View_insert (view_tbl s)
                               \<lparr>viewerId = me, targetId = userId, liked = l\<rparr>)
      in case inserted of
           Inl msg \<Rightarrow> (case found of Inl msg' \<Rightarrow> (Inl msg', view_tbl s) | Inr fav \<Rightarrow> (Inl msg, view_tbl s))
         | Inr vs \<Rightarrow> (found, vs))"

text \<open>What follows the response: the events of a new match, and the signal of a like.\<close>

definition view_notify :: "userId \<Rightarrow> userId \<Rightarrow> bool \<Rightarrow> bool \<Rightarrow> state \<Rightarrow> state" where
  "view_notify me userId matched l s =
     (let ids = getUserIdOrder userId me;
          s1 = (if matched
                then (let a = wsSend userId (new_match (fst ids) (snd ids)) s;
                          b = wsSend me (new_match (fst ids) (snd ids)) a
                      in if wsUsers b userId = None
                         then b\<lparr>pushQueue := pushQueue b @
                                [\<lparr>idToSendTo = userId, otherId = me, job_type = push_match,
                                  job_text = None\<rparr>]\<rparr>
                         else b)
                else s)
      in if l then wsSend userId new_like (User_incLikes userId s1) else s1)"

text \<open>
  The handler, for the authenticated user \<open>me\<close> and the validated body \<open>{userId, liked}\<close>.
  It returns what the caller gets, \<open>Inl\<close> an error that leaves the handler and \<open>Inr\<close> the
  response sent, and the state it leaves behind. A rejection of \<^verbatim>\<open>Promise.all\<close> is
  caught; a rejection of the insert of the Match is not, and it comes after the View is
  written and before the response.
\<close>

definition view_handler ::
  "match_defaults \<Rightarrow> view_fault option \<Rightarrow> userId \<Rightarrow> userId \<Rightarrow> bool \<Rightarrow> state
     \<Rightarrow> (string + view_response) \<times> state" where
  "view_handler d fault me userId l s =
     (case view_queries fault me userId l s of
        (Inl msg, vs) \<Rightarrow>
          if str_includes msg ''duplicate key''
          then (Inr \<lparr>match = False, ok = False\<rparr>, s\<lparr>view_tbl := vs\<rparr>)
          else (Inl msg, s\<lparr>view_tbl := vs\<rparr>)
      | (Inr fav, vs) \<Rightarrow>
          (let s1 = s\<lparr>view_tbl := vs\<rparr>
           in case (fav, fault) of
                (Some v, Some (Match_insert_rejects msg)) \<Rightarrow> (Inl msg, s1)
              | _ \<Rightarrow>
                  (let s2 = (if fav \<noteq> None
                             then s1\<lparr>match_tbl :=
                                    Match_insert d (match_tbl s1) (getUserIdOrder userId me)\<rparr>
                             else s1)
                   in (Inr \<lparr>match = (fav \<noteq> None), ok = True\<rparr>,
                       view_notify me userId (fav \<noteq> None) l s2))))"

section \<open>POST /unmatch and POST /report\<close>

definition unmatch_handler :: "userId \<Rightarrow> userId \<Rightarrow> state \<Rightarrow> state" where
  "unmatch_handler me userId s =
     wsSend userId (unmatch me)
       (s\<lparr>match_tbl := Match_delete (match_tbl s) (getUserIdOrder me userId)\<rparr>)"

text \<open>
  The report handler, as far as it writes the View and Match tables: the unmatch of
  \<^verbatim>\<open>"unmatch"\<close>, the dislike of \<^verbatim>\<open>"reject"\<close> (whose insert may fail, and then the
  error leaves the handler).
\<close>

definition report_handler :: "userId \<Rightarrow> userId \<Rightarrow> string \<Rightarrow> state \<Rightarrow> string + state" where
  "report_handler me userId unmatchOrReject s =
     (let s1 = (if unmatchOrReject = ''unmatch'' then unmatch_handler me userId s else s)
      in if unmatchOrReject = ''reject''
         then (case View_insert (view_tbl s1) \<lparr>viewerId = me, targetId = userId, liked = False\<rparr> of
                 Inl msg \<Rightarrow> Inl msg
               | Inr vs \<Rightarrow> Inr (s1\<lparr>view_tbl := vs\<rparr>))
         else Inr s1)"

section \<open>POST /message\<close>

text \<open>
  The handler, for the sender \<open>me\<close>, the validated body \<open>{recipientId, text}\<close> and the time
  \<open>now\<close> the row is created at. It returns the message of the response and the state after.
\<close>

definition message_handler :: "int \<Rightarrow> userId \<Rightarrow> userId \<Rightarrow> string \<Rightarrow> state \<Rightarrow> Message \<times> state" where
  "message_handler now me recipient txt s =
     (let m = \<lparr>senderId = me, recipientId = recipient, msg_text = txt, createdAt = now\<rparr>;
          s1 = wsSend recipient (new_message m) (s\<lparr>message_tbl := message_tbl s @ [m]\<rparr>);
          ids = getUserIdOrder me recipient;
          s2 = (if (case wsUsers s1 recipient of
                      None \<Rightarrow> True
                    | Some e \<Rightarrow> openChatUserId e \<noteq> Some me)
                then s1\<lparr>match_tbl :=
                       Match_update
                         (\<lambda>r. userId1 r = fst ids \<and> userId2 r = snd ids \<and> unmatched r = False)
                         (\<lambda>r. if fst ids = recipient then r\<lparr>read1 := False\<rparr> else r\<lparr>read2 := False\<rparr>)
                         (match_tbl s1)\<rparr>
                else s1);
          s3 = (if wsUsers s2 recipient = None
                then s2\<lparr>pushQueue := pushQueue s2 @
                       [\<lparr>idToSendTo = recipient, otherId = me, job_type = push_message,
                         job_text = Some (take 100 txt)\<rparr>]\<rparr>
                else s2)
      in (m, s3))"

section \<open>GET /messages/:userId/:cursor?\<close>

record messages_response =
  messages :: "Message list"
  hasMore :: bool

text \<open>
  The numbers \<^verbatim>\<open>parseInt\<close> gives: an integer, or an infinity for a parameter with too
  many digits. It gives \<^verbatim>\<open>NaN\<close> for a parameter that is no number, which is as falsy as
  an absent parameter; the cursor is nothing in both cases.
\<close>

datatype js_number = Finite int | Infinity | Minus_Infinity

text \<open>
  A number is truthy when it is not zero, and the handler tests the cursor by its truth
  value, both for the filter and for the update of the read flag.
\<close>

definition truthy :: "js_number option \<Rightarrow> bool" where
  "truthy cursor = (case cursor of None \<Rightarrow> False | Some (Finite c) \<Rightarrow> c \<noteq> 0 | Some n \<Rightarrow> True)"

definition isInteger :: "js_number option \<Rightarrow> bool" where
  "isInteger cursor = (case cursor of Some (Finite c) \<Rightarrow> True | _ \<Rightarrow> False)"

text \<open>
  \<^verbatim>\<open>new Date(cursor)\<close> is a date for at most 8640000000000000 milliseconds on either side
  of the epoch, and an invalid date beyond, which the store refuses as a timestamp.
\<close>

definition date_valid :: "int \<Rightarrow> bool" where
  "date_valid c = (- 8640000000000000 \<le> c \<and> c \<le> 8640000000000000)"

definition between_users :: "userId \<Rightarrow> userId \<Rightarrow> Message \<Rightarrow> bool" where
  "between_users me userId m =
     ((recipientId m = userId \<and> senderId m = me) \<or> (recipientId m = me \<and> senderId m = userId))"

text \<open>The rows of a filter, newest first, the first 21 of them.\<close>

definition newest_21 :: "(Message \<Rightarrow> bool) \<Rightarrow> Message list \<Rightarrow> Message list" where
  "newest_21 P ms = take 21 (sort_key (\<lambda>m. - createdAt m) (filter P ms))"

text \<open>
  The query: the condition on \<open>createdAt\<close> is added when the cursor is truthy and an integer,
  and then the query fails when the cursor makes no valid date.
\<close>

definition getMany :: "Message list \<Rightarrow> userId \<Rightarrow> userId \<Rightarrow> js_number option \<Rightarrow> string + Message list" where
  "getMany ms me userId cursor =
     (if truthy cursor \<and> isInteger cursor
      then (case cursor of
              Some (Finite c) \<Rightarrow>
                if date_valid c
                then Inr (newest_21 (\<lambda>m. between_users me userId m \<and> createdAt m < c) ms)
                else Inl ''invalid input syntax for type timestamp''
            | _ \<Rightarrow> Inr (newest_21 (between_users me userId) ms))
      else Inr (newest_21 (between_users me userId) ms))"

text \<open>
  The handler, for the authenticated user \<open>me\<close>, the other user and the cursor. It returns
  what the caller gets, \<open>Inl\<close> an error that leaves the handler and \<open>Inr\<close> the response
  sent, and the state it leaves behind. The query is awaited first, so when it fails
  nothing else is done. The update of the read flag is issued by the handler itself, after
  the response; here it is part of the request.
\<close>

definition get_messages_handler ::
  "userId \<Rightarrow> userId \<Rightarrow> js_number option \<Rightarrow> state \<Rightarrow> (string + messages_response) \<times> state" where
  "get_messages_handler me userId cursor s =
     (case getMany (message_tbl s) me userId cursor of
        Inl msg \<Rightarrow> (Inl msg, s)
      | Inr rows \<Rightarrow>
          (let resp = \<lparr>messages = take 20 rows, hasMore = (length rows = 21)\<rparr>;
               s1 = (case wsUsers s me of
                       Some e \<Rightarrow> s\<lparr>wsUsers := (wsUsers s)(me \<mapsto> e\<lparr>openChatUserId := Some userId\<rparr>)\<rparr>
                     | None \<Rightarrow> s);
               ids = getUserIdOrder userId me;
               s2 = (if \<not> truthy cursor
                     then s1\<lparr>match_tbl :=
                            Match_update
                              (\<lambda>r. userId1 r = fst ids \<and> userId2 r = snd ids)
                              (\<lambda>r. if fst ids = me then r\<lparr>read1 := True\<rparr> else r\<lparr>read2 := True\<rparr>)
                              (match_tbl s1)\<rparr>
                     else s1)
           in (Inr resp, s2)))"

section \<open>The connection registry and the handshake\<close>

text \<open>
  The handler of \<^verbatim>\<open>"connection"\<close>: an empty identifier is falsy and the socket is
  terminated; any other identifier gets a new entry, replacing the one it had.
\<close>

definition ws_connection :: "nat \<Rightarrow> userId \<Rightarrow> state \<Rightarrow> state" where
  "ws_connection h userId s =
     (if userId = [] then s
      else s\<lparr>wsUsers := (wsUsers s)(userId \<mapsto> \<lparr>ws = h, openChatUserId = None\<rparr>)\<rparr>)"

text \<open>A frame of the client, parsed: its type and the peer it names.\<close>

definition ws_message :: "userId \<Rightarrow> string \<Rightarrow> userId option \<Rightarrow> state \<Rightarrow> state" where
  "ws_message userId ty peer s =
     (if ty = ''message-open''
      then (case wsUsers s userId of
              Some e \<Rightarrow> s\<lparr>wsUsers := (wsUsers s)(userId \<mapsto> e\<lparr>openChatUserId := peer\<rparr>)\<rparr>
            | None \<Rightarrow> s)
      else s)"

definition ws_close :: "userId \<Rightarrow> state \<Rightarrow> state" where
  "ws_close userId s = s\<lparr>wsUsers := (wsUsers s)(userId := None)\<rparr>"

text \<open>
  A parameter of the query string of the upgrade request: absent, a string, or an array of
  strings when the parameter is repeated.
\<close>

datatype query_value = Undefined | Str string | Arr "string list"

record query =
  accessToken :: query_value
  refreshToken :: query_value

record env =
  ACCESS_TOKEN_SECRET :: string
  REFRESH_TOKEN_SECRET :: string

text \<open>The payload of a credential, as far as the handshake reads it.\<close>

record token_data =
  data_userId :: userId
  data_tokenVersion :: int

text \<open>
  \<^verbatim>\<open>verify\<close> of the library jsonwebtoken is a parameter: from a token and a secret, the
  payload, or nothing when it throws (a bad signature, an expired token).
\<close>

type_synonym verify_fn = "string \<Rightarrow> string \<Rightarrow> token_data option"

text \<open>
  The two ends of the handler of \<^verbatim>\<open>"upgrade"\<close>: \<open>good\<close> completes the upgrade and
  emits the connection for the user; \<open>bad\<close> writes \<^verbatim>\<open>401 Unauthorized\<close> and destroys the
  socket.
\<close>

datatype upgrade_outcome = good userId | bad

text \<open>
  The handler. The request's query is nothing when parsing the URL throws; \<open>fault\<close> is a
  failure of the lookup of the user, which the handler catches.
\<close>

definition upgrade ::
  "verify_fn \<Rightarrow> env \<Rightarrow> string option \<Rightarrow> state \<Rightarrow> query option \<Rightarrow> upgrade_outcome" where
  "upgrade verify e fault s q =
     (case q of
        None \<Rightarrow> bad
      | Some qs \<Rightarrow>
          (case (accessToken qs, refreshToken qs) of
             (Str a, Str r) \<Rightarrow>
               if a = [] \<or> r = [] then bad
               else (case verify a (ACCESS_TOKEN_SECRET e) of
                       Some data \<Rightarrow> good (data_userId data)
                     | None \<Rightarrow>
                         (case verify r (REFRESH_TOKEN_SECRET e) of
                            None \<Rightarrow> bad
                          | Some data \<Rightarrow>
                              (case fault of
                                 Some msg \<Rightarrow> bad
                               | None \<Rightarrow>
                                   (case user_tbl s (data_userId data) of
                                      None \<Rightarrow> bad
                                    | Some u \<Rightarrow>
                                        if tokenVersion u \<noteq> data_tokenVersion data then bad
                                        else good (data_userId data)))))
           | _ \<Rightarrow> bad))"

text \<open>The upgrade request as a whole, for the socket \<open>h\<close>: the outcome and the state after.\<close>

definition server_upgrade ::
  "verify_fn \<Rightarrow> env \<Rightarrow> string option \<Rightarrow> nat \<Rightarrow> query option \<Rightarrow> state
     \<Rightarrow> upgrade_outcome \<times> state" where
  "server_upgrade verify e fault h q s =
     (case upgrade verify e fault s q of
        good userId \<Rightarrow> (good userId, ws_connection h userId s)
      | bad \<Rightarrow> (bad, s))"

section \<open>Rate limits\<close>

text \<open>
  The options of a limiter, each present or not, and the spread of one options object over
  another: a key of the second wins.
\<close>

record limiter_opts =
  execEvenly :: "bool option"
  blockDuration :: "nat option"
  points :: "nat option"
  duration :: "nat option"
  keyPrefix :: "string option"

definition override :: "'a option \<Rightarrow> 'a option \<Rightarrow> 'a option" where
  "override a b = (case b of Some x \<Rightarrow> Some x | None \<Rightarrow> a)"

definition spread :: "limiter_opts \<Rightarrow> limiter_opts \<Rightarrow> limiter_opts" where
  "spread a b =
     \<lparr>execEvenly = override (execEvenly a) (execEvenly b),
      blockDuration = override (blockDuration a) (blockDuration b),
      points = override (points a) (points b),
      duration = override (duration a) (duration b),
      keyPrefix = override (keyPrefix a) (keyPrefix b)\<rparr>"

definition SECONDS_IN_A_DAY :: nat where
  "SECONDS_IN_A_DAY = 86400"

definition defaultRateLimitOpts :: limiter_opts where
  "defaultRateLimitOpts =
     \<lparr>execEvenly = Some False, blockDuration = Some SECONDS_IN_A_DAY, points = None,
      duration = None, keyPrefix = None\<rparr>"

text \<open>The limiter of POST /view.\<close>

definition view_limiter_opts :: limiter_opts where
  "view_limiter_opts =
     spread defaultRateLimitOpts
       \<lparr>execEvenly = None, blockDuration = Some 0, points = Some 100,
        duration = Some SECONDS_IN_A_DAY, keyPrefix = Some ''rl/view/''\<rparr>"

text \<open>
  The limiters of the other routes differ in their points and their prefix only, and keep
  the default block duration: in the order of the source, those of PUT /user/imgs,
  PUT /user/push-token, PUT /user, GET /feed, GET /matches, POST /unmatch, POST /report,
  POST /message and GET /user/:id.
\<close>

definition route_limiter_opts :: "nat \<Rightarrow> string \<Rightarrow> limiter_opts" where
  "route_limiter_opts n p =
     spread defaultRateLimitOpts
       \<lparr>execEvenly = None, blockDuration = None, points = Some n,
        duration = Some SECONDS_IN_A_DAY, keyPrefix = Some p\<rparr>"

definition other_limiters :: "limiter_opts list" where
  "other_limiters =
     [route_limiter_opts 100 ''rl/user/imgs/'',
      route_limiter_opts 20 ''rl/user/push-token/'',
      route_limiter_opts 100 ''rl/user/'',
      route_limiter_opts 500 ''rl/feed/'',
      route_limiter_opts 500 ''rl/matches/'',
      route_limiter_opts 100 ''rl/unmatch/'',
      route_limiter_opts 100 ''rl/report/'',
      route_limiter_opts 1000 ''rl/message/'',
      route_limiter_opts 200 ''rl/user/:id'']"

text \<open>The claim about the swipe quota: a block duration longer than the window.\<close>

definition block_longer_than_window :: "limiter_opts \<Rightarrow> bool" where
  "block_longer_than_window opts =
     (case (blockDuration opts, duration opts) of
        (Some b, Some w) \<Rightarrow> w < b
      | _ \<Rightarrow> False)"

text \<open>
  Modelled from the spec: the middleware \<^verbatim>\<open>rateLimitMiddleware\<close> and the quota engine are
  not among the sources. By the spec an actor consumes one point of a fixed capacity per
  attempt, over a window that starts with the first point; past the capacity the attempt is
  rejected until the window ends; a quota with a block duration locks the actor out for that
  duration from the first violation. The counters live in a store keyed by the action's
  prefix and the actor, with times in seconds.
\<close>

record limiter_entry =
  consumed :: nat
  expiresAt :: nat

definition limiter_key :: "limiter_opts \<Rightarrow> string \<Rightarrow> string" where
  "limiter_key opts actor = (case keyPrefix opts of Some p \<Rightarrow> p | None \<Rightarrow> []) @ actor"

definition current_entry :: "limiter_opts \<Rightarrow> nat \<Rightarrow> limiter_entry option \<Rightarrow> limiter_entry" where
  "current_entry opts now e =
     (case e of
        Some x \<Rightarrow>
          if now < expiresAt x then x
          else \<lparr>consumed = 0, expiresAt = now + (case duration opts of Some w \<Rightarrow> w | None \<Rightarrow> 0)\<rparr>
      | None \<Rightarrow> \<lparr>consumed = 0, expiresAt = now + (case duration opts of Some w \<Rightarrow> w | None \<Rightarrow> 0)\<rparr>)"

definition consume ::
  "limiter_opts \<Rightarrow> nat \<Rightarrow> string \<Rightarrow> (string \<rightharpoonup> limiter_entry) \<Rightarrow> bool \<times> (string \<rightharpoonup> limiter_entry)" where
  "consume opts now actor store =
     (let k = limiter_key opts actor;
          cur = current_entry opts now (store k);
          n = consumed cur + 1;
          cap = (case points opts of Some p \<Rightarrow> p | None \<Rightarrow> 0);
          blk = (case blockDuration opts of Some b \<Rightarrow> b | None \<Rightarrow> 0)
      in if n \<le> cap then (True, store(k \<mapsto> cur\<lparr>consumed := n\<rparr>))
         else if 0 < blk \<and> n = cap + 1
         then (False, store(k \<mapsto> \<lparr>consumed = n, expiresAt = now + blk\<rparr>))
         else (False, store(k \<mapsto> cur\<lparr>consumed := n\<rparr>)))"

text \<open>
  The attempts of an actor at the given times, one after the other: which of them were
  admitted, and the store after the last.
\<close>

fun attempts ::
  "limiter_opts \<Rightarrow> string \<Rightarrow> nat list \<Rightarrow> (string \<rightharpoonup> limiter_entry)
     \<Rightarrow> bool list \<times> (string \<rightharpoonup> limiter_entry)" where
  "attempts opts actor [] store = ([], store)"
| "attempts opts actor (t # ts) store =
     (fst (consume opts t actor store) #
        fst (attempts opts actor ts (snd (consume opts t actor store))),
      snd (attempts opts actor ts (snd (consume opts t actor store))))"

section \<open>Requests, one at a time\<close>

text \<open>
  The requests that write the tables and the registry, each handled to its end before the
  next begins. The state after a request is the one its handler leaves behind, also when
  it throws.
\<close>

datatype request =
  POST_view userId userId bool "view_fault option"
  | POST_unmatch userId userId
  | POST_report userId userId string
  | POST_message userId userId string int
  | GET_messages userId userId "js_number option"
  | WS_connection nat userId
  | WS_message userId string "userId option"
  | WS_close userId

fun step :: "match_defaults \<Rightarrow> state \<Rightarrow> request \<Rightarrow> state" where
  "step d s (POST_view me userId l fault) = snd (view_handler d fault me userId l s)"
| "step d s (POST_unmatch me userId) = unmatch_handler me userId s"
| "step d s (POST_report me userId unmatchOrReject) =
     (case report_handler me userId unmatchOrReject s of
        Inl msg \<Rightarrow> s
      | Inr s' \<Rightarrow> s')"
| "step d s (POST_message me recipient txt now) = snd (message_handler now me recipient txt s)"
| "step d s (GET_messages me userId cursor) = snd (get_messages_handler me userId cursor s)"
| "step d s (WS_connection h userId) = ws_connection h userId s"
| "step d s (WS_message userId ty peer) = ws_message userId ty peer s"
| "step d s (WS_close userId) = ws_close userId s"

definition run :: "match_defaults \<Rightarrow> state \<Rightarrow> request list \<Rightarrow> state" where
  "run d s rs = foldl (step d) s rs"

text \<open>A state before any swipe: no View and no Match.\<close>

definition initial :: "state \<Rightarrow> bool" where
  "initial s = (view_tbl s = [] \<and> match_tbl s = [])"

text \<open>Requests that remove a Match: POST /unmatch, and POST /report with \<^verbatim>\<open>"unmatch"\<close>.\<close>

fun is_unmatch :: "request \<Rightarrow> bool" where
  "is_unmatch (POST_unmatch me userId) = True"
| "is_unmatch (POST_report me userId unmatchOrReject) = (unmatchOrReject = ''unmatch'')"
| "is_unmatch r = False"

section \<open>Observations of a state\<close>

definition acted :: "state \<Rightarrow> userId \<Rightarrow> userId \<Rightarrow> bool" where
  "acted s a b = (\<exists>v \<in> set (view_tbl s). viewerId v = a \<and> targetId v = b)"

definition has_like :: "state \<Rightarrow> userId \<Rightarrow> userId \<Rightarrow> bool" where
  "has_like s a b = (\<exists>v \<in> set (view_tbl s). viewerId v = a \<and> targetId v = b \<and> liked v)"

text \<open>The View rows of an actor on a target, and the Match rows of a pair in either order.\<close>

definition view_rows :: "state \<Rightarrow> userId \<Rightarrow> userId \<Rightarrow> View list" where
  "view_rows s a b = filter (\<lambda>v. viewerId v = a \<and> targetId v = b) (view_tbl s)"

definition pair_rows :: "state \<Rightarrow> userId \<Rightarrow> userId \<Rightarrow> Match list" where
  "pair_rows s a b =
     filter (\<lambda>m. (userId1 m = a \<and> userId2 m = b) \<or> (userId1 m = b \<and> userId2 m = a)) (match_tbl s)"

definition has_match :: "state \<Rightarrow> userId \<Rightarrow> userId \<Rightarrow> bool" where
  "has_match s a b = (pair_rows s a b \<noteq> [])"

definition pairs :: "state \<Rightarrow> (userId \<times> userId) list" where
  "pairs s = map (\<lambda>m. (userId1 m, userId2 m)) (match_tbl s)"

text \<open>The row that \<^verbatim>\<open>Match.insert\<close> writes for a pair.\<close>

definition new_match_row :: "match_defaults \<Rightarrow> userId \<times> userId \<Rightarrow> Match" where
  "new_match_row d ids =
     \<lparr>userId1 = fst ids, userId2 = snd ids, read1 = default_read1 d,
      read2 = default_read2 d, unmatched = default_unmatched d\<rparr>"

text \<open>A request in which the store rejects the insert of the View for another reason than its key.\<close>

fun insert_fails :: "view_fault option \<Rightarrow> bool" where
  "insert_fails (Some (insert_rejects msg)) = True"
| "insert_fails fault = False"

text \<open>The response a handler sent, when it did not throw.\<close>

definition response :: "(string + 'a) \<times> state \<Rightarrow> 'a option" where
  "response res = (case fst res of Inl msg \<Rightarrow> None | Inr resp \<Rightarrow> Some resp)"

text \<open>
  The invariant of the Match table, which holds after any requests: every row is in
  canonical order, both likes behind it are recorded, and no pair has two rows.
\<close>

definition match_inv :: "state \<Rightarrow> bool" where
  "match_inv s =
     ((\<forall>p \<in> set (pairs s). fst p < snd p \<and> has_like s (fst p) (snd p) \<and> has_like s (snd p) (fst p)) \<and>
      distinct (pairs s))"




text \<open>
  The unread marker of a message from \<open>S\<close> to \<open>R\<close>, as a relation between the Match table
  before and after: in the row of the pair that is not unmatched, the read flag on the side
  of \<open>R\<close> is false and the other flag is as it was; every other row is as it was.
\<close>

definition marks_unread :: "userId \<Rightarrow> userId \<Rightarrow> Match list \<Rightarrow> Match list \<Rightarrow> bool" where
  "marks_unread S R ms ms' =
     list_all2 (\<lambda>r r'.
        userId1 r' = userId1 r \<and> userId2 r' = userId2 r \<and> unmatched r' = unmatched r \<and>
        (if (userId1 r, userId2 r) = getUserIdOrder S R \<and> \<not> unmatched r
         then (if userId1 r = R then \<not> read1 r' \<and> read2 r' = read2 r
               else \<not> read2 r' \<and> read1 r' = read1 r)
         else read1 r' = read1 r \<and> read2 r' = read2 r)) ms ms'"

text \<open>
  The same for a fetch by \<open>me\<close> of the conversation with \<open>other\<close>: in the row of the pair the
  read flag on the side of \<open>me\<close> is true and the other flag is as it was.
\<close>

definition marks_read :: "userId \<Rightarrow> userId \<Rightarrow> Match list \<Rightarrow> Match list \<Rightarrow> bool" where
  "marks_read me other ms ms' =
     list_all2 (\<lambda>r r'.
        userId1 r' = userId1 r \<and> userId2 r' = userId2 r \<and> unmatched r' = unmatched r \<and>
        (if (userId1 r, userId2 r) = getUserIdOrder other me
         then (if userId1 r = me then read1 r' \<and> read2 r' = read2 r
               else read2 r' \<and> read1 r' = read1 r)
         else read1 r' = read1 r \<and> read2 r' = read2 r)) ms ms'"

text \<open>A page of messages, newest first; and the messages a fetch may return.\<close>

definition newest_first :: "Message list \<Rightarrow> bool" where
  "newest_first ms = sorted_wrt (\<lambda>a b. createdAt b \<le> createdAt a) ms"

definition eligible :: "userId \<Rightarrow> userId \<Rightarrow> js_number option \<Rightarrow> Message \<Rightarrow> bool" where
  "eligible me other cursor m =
     (between_users me other m \<and>
      (case cursor of Some (Finite c) \<Rightarrow> c = 0 \<or> createdAt m < c | _ \<Rightarrow> True))"

text \<open>A cursor that makes no valid date: an integer other than 0 beyond the range of dates.\<close>

definition bad_date :: "js_number option \<Rightarrow> bool" where
  "bad_date cursor = (case cursor of Some (Finite c) \<Rightarrow> c \<noteq> 0 \<and> \<not> date_valid c | _ \<Rightarrow> False)"

text \<open>A parameter of the upgrade request that is supplied: a string, and not the empty one.\<close>

definition supplied :: "query_value \<Rightarrow> bool" where
  "supplied v = (case v of Str x \<Rightarrow> x \<noteq> [] | _ \<Rightarrow> False)"

section \<open>Examples\<close>

definition example_defaults :: match_defaults where
  "example_defaults = \<lparr>default_read1 = False, default_read2 = False, default_unmatched = False\<rparr>"

definition empty_state :: state where
  "empty_state =
     \<lparr>user_tbl = Map.empty, view_tbl = [], match_tbl = [], message_tbl = [],
      wsUsers = Map.empty, wsSent = [], pushQueue = []\<rparr>"

text \<open>
  Alice and Bob are matched and have written to each other; Bob is connected on socket 1
  with the chat \<open>focus\<close> open; both read flags of the row are \<open>rd\<close>.
\<close>

definition chat_state :: "userId option \<Rightarrow> bool \<Rightarrow> state" where
  "chat_state focus rd =
     \<lparr>user_tbl = Map.empty, view_tbl = [],
      match_tbl = [\<lparr>userId1 = ''alice'', userId2 = ''bob'', read1 = rd, read2 = rd,
                    unmatched = False\<rparr>],
      message_tbl =
        [\<lparr>senderId = ''alice'', recipientId = ''bob'', msg_text = ''hi'', createdAt = 5\<rparr>,
         \<lparr>senderId = ''carol'', recipientId = ''bob'', msg_text = ''yo'', createdAt = 6\<rparr>,
         \<lparr>senderId = ''bob'', recipientId = ''alice'', msg_text = ''hey'', createdAt = 7\<rparr>],
      wsUsers = [''bob'' \<mapsto> \<lparr>ws = 1, openChatUserId = focus\<rparr>],
      wsSent = [], pushQueue = []\<rparr>"

text \<open>
  A verifier for the examples: one access token and two refresh tokens of the user \<open>u1\<close>,
  the first refresh token issued at version 1 and the second at version 2.
\<close>

definition example_env :: env where
  "example_env = \<lparr>ACCESS_TOKEN_SECRET = ''as'', REFRESH_TOKEN_SECRET = ''rs''\<rparr>"

definition example_verify :: verify_fn where
  "example_verify token secret =
     (if token = ''access-u1'' \<and> secret = ''as''
      then Some \<lparr>data_userId = ''u1'', data_tokenVersion = 0\<rparr>
      else if token = ''refresh-u1-v1'' \<and> secret = ''rs''
      then Some \<lparr>data_userId = ''u1'', data_tokenVersion = 1\<rparr>
      else if token = ''refresh-u1-v2'' \<and> secret = ''rs''
      then Some \<lparr>data_userId = ''u1'', data_tokenVersion = 2\<rparr>
      else None)"

text \<open>The user \<open>u1\<close> with the stored version 2, and nobody connected.\<close>

definition example_users :: state where
  "example_users =
     \<lparr>user_tbl = [''u1'' \<mapsto> \<lparr>tokenVersion = 2, numLikes = 0\<rparr>], view_tbl = [], match_tbl = [],
      message_tbl = [], wsUsers = Map.empty, wsSent = [], pushQueue = []\<rparr>"

section \<open>Lemmas about the requests\<close>

subsection \<open>Frames and counters leave the tables alone\<close>

lemma wsSend_tables [simp]:
  "view_tbl (wsSend k v s) = view_tbl s"
  "match_tbl (wsSend k v s) = match_tbl s"
  "wsUsers (wsSend k v s) = wsUsers s"
  "pushQueue (wsSend k v s) = pushQueue s"
  by (simp_all add: wsSend_def split: option.splits)

lemma User_incLikes_tables [simp]:
  "view_tbl (User_incLikes u s) = view_tbl s"
  "match_tbl (User_incLikes u s) = match_tbl s"
  "wsUsers (User_incLikes u s) = wsUsers s"
  by (simp_all add: User_incLikes_def split: option.splits)

lemma view_notify_tables [simp]:
  "view_tbl (view_notify me u matched l s) = view_tbl s"
  "match_tbl (view_notify me u matched l s) = match_tbl s"
  by (simp_all add: view_notify_def Let_def)

lemma findOne_like: "(View_findOne (view_tbl s) a b True = None) = (\<not> has_like s a b)"
  by (auto simp: View_findOne_def has_like_def find_None_iff)

lemma findOne_Some: "View_findOne (view_tbl s) a b True = Some v \<Longrightarrow> has_like s a b"
  using findOne_like [of s a b] by simp

lemma View_insert_acted:
  "acted s a b \<Longrightarrow>
   View_insert (view_tbl s) \<lparr>viewerId = a, targetId = b, liked = l\<rparr> =
     Inl ''duplicate key value violates unique constraint''"
  by (simp add: View_insert_def acted_def)

lemma View_insert_fresh:
  "\<not> acted s a b \<Longrightarrow>
   View_insert (view_tbl s) \<lparr>viewerId = a, targetId = b, liked = l\<rparr> =
     Inr (view_tbl s @ [\<lparr>viewerId = a, targetId = b, liked = l\<rparr>])"
  by (simp add: View_insert_def acted_def)

lemma duplicate_message: "str_includes ''duplicate key value violates unique constraint'' ''duplicate key''"
  by simp

subsection \<open>The handler of POST /view, case by case\<close>

lemma view_queries_tbl:
  "snd (view_queries fault me u l s) =
     (if \<not> acted s me u \<and> \<not> insert_fails fault
      then view_tbl s @ [\<lparr>viewerId = me, targetId = u, liked = l\<rparr>]
      else view_tbl s)"
  by (cases "acted s me u"; cases fault rule: insert_fails.cases)
     (simp_all add: view_queries_def Let_def View_insert_acted View_insert_fresh
        split: sum.splits)

lemma view_queries_None:
  "fst (view_queries None me u l s) =
     (if acted s me u then Inl ''duplicate key value violates unique constraint''
      else Inr (if l then View_findOne (view_tbl s) u me True else None))"
  by (simp add: view_queries_def Let_def View_insert_acted View_insert_fresh)

lemma view_handler_tbl:
  "view_tbl (snd (view_handler d fault me u l s)) = snd (view_queries fault me u l s)"
  by (cases "view_queries fault me u l s")
     (auto simp: view_handler_def Let_def split: sum.splits option.splits view_fault.splits)

lemma view_handler_duplicate:
  "acted s me u \<Longrightarrow> view_handler d None me u l s = (Inr \<lparr>match = False, ok = False\<rparr>, s)"
  using view_queries_None [of me u l s] view_queries_tbl [of None me u l s]
  by (cases "view_queries None me u l s") (simp add: view_handler_def)

lemma view_handler_fresh:
  "\<not> acted s me u \<Longrightarrow>
   view_handler d None me u l s =
     (Inr \<lparr>match = (l \<and> has_like s u me), ok = True\<rparr>,
      view_notify me u (l \<and> has_like s u me) l
        (if l \<and> has_like s u me
         then s\<lparr>view_tbl := view_tbl s @ [\<lparr>viewerId = me, targetId = u, liked = l\<rparr>],
                match_tbl := match_tbl s @ [new_match_row d (getUserIdOrder u me)]\<rparr>
         else s\<lparr>view_tbl := view_tbl s @ [\<lparr>viewerId = me, targetId = u, liked = l\<rparr>]\<rparr>))"
  using view_queries_None [of me u l s] view_queries_tbl [of None me u l s]
  by (cases "view_queries None me u l s"; cases "has_like s u me")
     (auto simp: view_handler_def Let_def findOne_like Match_insert_def new_match_row_def
        dest: findOne_Some split: option.splits)

lemma step_view_view_tbl:
  "view_tbl (step d s (POST_view me u l fault)) =
     (if \<not> acted s me u \<and> \<not> insert_fails fault
      then view_tbl s @ [\<lparr>viewerId = me, targetId = u, liked = l\<rparr>]
      else view_tbl s)"
  by (simp add: view_handler_tbl view_queries_tbl)

lemma view_handler_match_tbl:
  "match_tbl (snd (view_handler d fault me u l s)) =
     (if fault = None \<and> \<not> acted s me u \<and> l \<and> has_like s u me
      then match_tbl s @ [new_match_row d (getUserIdOrder u me)]
      else match_tbl s)"
proof (cases fault)
  case None
  then show ?thesis
    by (cases "acted s me u") (simp_all add: view_handler_duplicate view_handler_fresh)
next
  case (Some f)
  then show ?thesis
    by (cases f)
       (auto simp: view_handler_def view_queries_def Let_def split: sum.splits option.splits)
qed

lemma step_view_match_tbl:
  "match_tbl (step d s (POST_view me u l fault)) =
     (if fault = None \<and> \<not> acted s me u \<and> l \<and> has_like s u me
      then match_tbl s @ [new_match_row d (getUserIdOrder u me)]
      else match_tbl s)"
  by (simp add: view_handler_match_tbl)


subsection \<open>The other requests\<close>

lemma step_unmatch_tables:
  "view_tbl (step d s (POST_unmatch me u)) = view_tbl s"
  "match_tbl (step d s (POST_unmatch me u)) = Match_delete (match_tbl s) (getUserIdOrder me u)"
  by (simp_all add: unmatch_handler_def)

lemma step_report_view_tbl:
  "view_tbl (step d s (POST_report me u k)) =
     (if k = ''reject'' \<and> \<not> acted s me u
      then view_tbl s @ [\<lparr>viewerId = me, targetId = u, liked = False\<rparr>]
      else view_tbl s)"
  by (cases "acted s me u")
     (simp_all add: report_handler_def Let_def View_insert_acted View_insert_fresh unmatch_handler_def)

lemma step_report_match_tbl:
  "match_tbl (step d s (POST_report me u k)) =
     (if k = ''unmatch'' then Match_delete (match_tbl s) (getUserIdOrder me u) else match_tbl s)"
  by (cases "acted s me u")
     (simp_all add: report_handler_def Let_def View_insert_acted View_insert_fresh unmatch_handler_def)

lemma pairs_Match_update:
  "(\<And>r. userId1 (f r) = userId1 r \<and> userId2 (f r) = userId2 r) \<Longrightarrow>
   map (\<lambda>m. (userId1 m, userId2 m)) (Match_update c f ms) = map (\<lambda>m. (userId1 m, userId2 m)) ms"
  by (induction ms) (simp_all add: Match_update_def)

lemma step_message_tables:
  "view_tbl (step d s (POST_message me r txt now)) = view_tbl s"
  "pairs (step d s (POST_message me r txt now)) = pairs s"
  by (simp_all add: message_handler_def Let_def pairs_def pairs_Match_update)

lemma step_get_messages_tables:
  "view_tbl (step d s (GET_messages me u c)) = view_tbl s"
  "pairs (step d s (GET_messages me u c)) = pairs s"
  by (simp_all add: get_messages_handler_def Let_def pairs_def pairs_Match_update
      split: option.splits sum.splits)

lemma step_ws_tables:
  "view_tbl (step d s (WS_connection h u)) = view_tbl s"
  "match_tbl (step d s (WS_connection h u)) = match_tbl s"
  "view_tbl (step d s (WS_message u ty p)) = view_tbl s"
  "match_tbl (step d s (WS_message u ty p)) = match_tbl s"
  "view_tbl (step d s (WS_close u)) = view_tbl s"
  "match_tbl (step d s (WS_close u)) = match_tbl s"
  by (simp_all add: ws_connection_def ws_message_def ws_close_def split: option.splits)


declare step.simps [simp del]

subsection \<open>The canonical order\<close>

lemma getUserIdOrder_cases:
  "getUserIdOrder a b = (a, b) \<and> a \<le> b \<or> getUserIdOrder a b = (b, a) \<and> b < a"
  by (auto simp: getUserIdOrder_def)

lemma getUserIdOrder_commute: "getUserIdOrder a b = getUserIdOrder b a"
  by (auto simp: getUserIdOrder_def)

lemma getUserIdOrder_strict: "a \<noteq> b \<Longrightarrow> fst (getUserIdOrder a b) < snd (getUserIdOrder a b)"
  by (auto simp: getUserIdOrder_def)

subsection \<open>Views are only added, one per actor and target\<close>

lemma has_like_acted: "has_like s a b \<Longrightarrow> acted s a b"
  by (auto simp: has_like_def acted_def)

lemma view_tbl_step:
  "view_tbl (step d s r) = view_tbl s \<or>
   (\<exists>v. view_tbl (step d s r) = view_tbl s @ [v] \<and> \<not> acted s (viewerId v) (targetId v))"
proof (cases r)
  case (POST_view me u l fault)
  then show ?thesis by (simp add: step_view_view_tbl)
next
  case (POST_report me u k)
  then show ?thesis by (simp add: step_report_view_tbl)
qed (simp_all add: step_unmatch_tables step_message_tables step_get_messages_tables step_ws_tables)

lemma has_like_step: "has_like s a b \<Longrightarrow> has_like (step d s r) a b"
  using view_tbl_step [of d s r] by (auto simp: has_like_def)

lemma acted_step: "acted s a b \<Longrightarrow> acted (step d s r) a b"
  using view_tbl_step [of d s r] by (auto simp: acted_def)

lemma view_rows_step:
  assumes "length (view_rows s a b) = 1"
  shows "length (view_rows (step d s r) a b) = 1"
proof -
  from assms have "view_rows s a b \<noteq> []" by auto
  then have act: "acted s a b"
    by (auto simp: view_rows_def acted_def filter_empty_conv)
  from view_tbl_step [of d s r] show ?thesis
  proof
    assume "view_tbl (step d s r) = view_tbl s"
    with assms show ?thesis by (simp add: view_rows_def)
  next
    assume "\<exists>v. view_tbl (step d s r) = view_tbl s @ [v] \<and> \<not> acted s (viewerId v) (targetId v)"
    then obtain v where v: "view_tbl (step d s r) = view_tbl s @ [v]"
      and fresh: "\<not> acted s (viewerId v) (targetId v)" by blast
    from act fresh have "\<not> (viewerId v = a \<and> targetId v = b)" by auto
    with v assms show ?thesis by (simp add: view_rows_def)
  qed
qed

subsection \<open>The pairs of the Match table\<close>

lemma pairs_step_view:
  "pairs (step d s (POST_view me u l fault)) =
     (if fault = None \<and> \<not> acted s me u \<and> l \<and> has_like s u me
      then pairs s @ [getUserIdOrder u me]
      else pairs s)"
  by (simp add: pairs_def step_view_match_tbl new_match_row_def)

lemma pairs_Match_delete:
  "map (\<lambda>m. (userId1 m, userId2 m)) (Match_delete ms ids) =
     filter (\<lambda>p. p \<noteq> ids) (map (\<lambda>m. (userId1 m, userId2 m)) ms)"
  by (induction ms) (auto simp: Match_delete_def prod_eq_iff)

lemma pairs_step:
  "pairs (step d s r) = pairs s \<or>
   (\<exists>ids. is_unmatch r \<and> pairs (step d s r) = filter (\<lambda>p. p \<noteq> ids) (pairs s)) \<or>
   (\<exists>me u. r = POST_view me u True None \<and> \<not> acted s me u \<and> has_like s u me \<and>
      pairs (step d s r) = pairs s @ [getUserIdOrder u me])"
proof (cases r)
  case (POST_view me u l fault)
  then show ?thesis by (auto simp: pairs_step_view)
next
  case (POST_unmatch me u)
  then have "is_unmatch r \<and>
      pairs (step d s r) = filter (\<lambda>p. p \<noteq> getUserIdOrder me u) (pairs s)"
    by (simp add: pairs_def step_unmatch_tables pairs_Match_delete)
  then show ?thesis by blast
next
  case (POST_report me u k)
  show ?thesis
  proof (cases "k = ''unmatch''")
    case True
    with POST_report have "is_unmatch r \<and>
        pairs (step d s r) = filter (\<lambda>p. p \<noteq> getUserIdOrder me u) (pairs s)"
      by (simp add: pairs_def step_report_match_tbl pairs_Match_delete)
    then show ?thesis by blast
  next
    case False
    with POST_report show ?thesis
      by (simp add: pairs_def step_report_match_tbl)
  qed
next
  case (POST_message me u body now)
  then show ?thesis by (simp add: step_message_tables)
next
  case (GET_messages me u c)
  then show ?thesis by (simp add: step_get_messages_tables)
qed (simp_all add: step_ws_tables pairs_def)

lemma match_inv_initial: "initial s \<Longrightarrow> match_inv s"
  by (simp add: initial_def match_inv_def pairs_def)

lemma match_inv_step:
  assumes "match_inv s"
  shows "match_inv (step d s r)"
proof -
  let ?s' = "step d s r"
  from assms have old: "\<And>p. p \<in> set (pairs s) \<Longrightarrow>
      fst p < snd p \<and> has_like ?s' (fst p) (snd p) \<and> has_like ?s' (snd p) (fst p)"
    and dist: "distinct (pairs s)"
    by (auto simp: match_inv_def has_like_step)
  from pairs_step [of d s r] show ?thesis
  proof (elim disjE exE conjE)
    assume "pairs ?s' = pairs s"
    with old dist show ?thesis by (simp add: match_inv_def)
  next
    fix ids assume "pairs ?s' = filter (\<lambda>p. p \<noteq> ids) (pairs s)"
    with old dist show ?thesis by (simp add: match_inv_def)
  next
    fix me u :: userId
    assume r: "r = POST_view me u True None" and fresh: "\<not> acted s me u"
      and like: "has_like s u me" and app: "pairs ?s' = pairs s @ [getUserIdOrder u me]"
    from like have "acted s u me" by (rule has_like_acted)
    with fresh have neq: "u \<noteq> me" by auto
    have new_view: "has_like ?s' me u"
      using r fresh by (simp add: has_like_def step_view_view_tbl)
    have old_view: "has_like ?s' u me"
      using like by (rule has_like_step)
    have ord: "fst (getUserIdOrder u me) < snd (getUserIdOrder u me)"
      using neq by (rule getUserIdOrder_strict)
    have both: "has_like ?s' (fst (getUserIdOrder u me)) (snd (getUserIdOrder u me)) \<and>
                has_like ?s' (snd (getUserIdOrder u me)) (fst (getUserIdOrder u me))"
      using getUserIdOrder_cases [of u me] new_view old_view by auto
    have notin: "getUserIdOrder u me \<notin> set (pairs s)"
    proof
      assume "getUserIdOrder u me \<in> set (pairs s)"
      with assms have "has_like s (fst (getUserIdOrder u me)) (snd (getUserIdOrder u me)) \<and>
          has_like s (snd (getUserIdOrder u me)) (fst (getUserIdOrder u me))"
        by (auto simp: match_inv_def)
      with getUserIdOrder_cases [of u me] have "has_like s me u" by auto
      with fresh show False by (auto dest: has_like_acted)
    qed
    from app old dist ord both notin show ?thesis
      by (auto simp: match_inv_def)
  qed
qed

lemma run_snoc: "run d s (rs @ [r]) = step d (run d s rs) r"
  by (simp add: run_def)

lemma match_inv_run: "initial s0 \<Longrightarrow> match_inv (run d s0 rs)"
proof (induction rs rule: rev_induct)
  case Nil
  then show ?case by (simp add: run_def match_inv_initial)
next
  case (snoc r rs)
  then show ?case by (simp add: run_snoc match_inv_step)
qed

subsection \<open>Rows of a pair, and the likes behind them\<close>

lemma has_match_pairs: "has_match s a b = ((a, b) \<in> set (pairs s) \<or> (b, a) \<in> set (pairs s))"
  by (auto simp: has_match_def pair_rows_def pairs_def filter_empty_conv)

lemma pair_rows_none: "\<not> has_match s a b \<Longrightarrow> pair_rows s a b = []"
  by (simp add: has_match_def)

lemma match_inv_pair:
  "match_inv s \<Longrightarrow> (a, b) \<in> set (pairs s) \<Longrightarrow> a < b \<and> has_like s a b \<and> has_like s b a"
  by (auto simp: match_inv_def)

lemma match_inv_has_match:
  assumes "match_inv s" and "has_match s a b"
  shows "has_like s a b \<and> has_like s b a \<and> a \<noteq> b"
  using assms match_inv_pair [of s a b] match_inv_pair [of s b a]
  by (auto simp: has_match_pairs)

lemma match_inv_rows:
  "match_inv s \<Longrightarrow> m \<in> set (match_tbl s) \<Longrightarrow> userId1 m < userId2 m"
  using match_inv_pair [of s "userId1 m" "userId2 m"] by (auto simp: pairs_def)

lemma filter_key_distinct:
  "distinct (map f xs) \<Longrightarrow> length (filter (\<lambda>x. f x = k) xs) \<le> 1"
proof (induction xs)
  case Nil
  then show ?case by simp
next
  case (Cons x xs)
  show ?case
  proof (cases "f x = k")
    case True
    with Cons.prems have "k \<notin> f ` set xs" by auto
    then have "filter (\<lambda>x. f x = k) xs = []"
      by (auto simp: filter_empty_conv)
    with True show ?thesis by simp
  next
    case False
    with Cons show ?thesis by simp
  qed
qed

lemma match_inv_at_most_one:
  assumes "match_inv s"
  shows "length (pair_rows s a b) \<le> 1"
proof -
  let ?f = "\<lambda>m. (userId1 m, userId2 m)"
  have dist: "distinct (map ?f (match_tbl s))"
    using assms by (simp add: match_inv_def pairs_def)
  have ord: "\<And>m. m \<in> set (match_tbl s) \<Longrightarrow> userId1 m < userId2 m"
    using assms by (rule match_inv_rows)
  show ?thesis
  proof (cases "a < b")
    case True
    have "pair_rows s a b = filter (\<lambda>m. ?f m = (a, b)) (match_tbl s)"
      unfolding pair_rows_def
    proof (rule filter_cong [OF refl])
      fix m assume "m \<in> set (match_tbl s)"
      with ord [of m] True
      show "((userId1 m = a \<and> userId2 m = b) \<or> (userId1 m = b \<and> userId2 m = a)) = (?f m = (a, b))"
        by auto
    qed
    with filter_key_distinct [OF dist, of "(a, b)"] show ?thesis by simp
  next
    case False
    have "pair_rows s a b = filter (\<lambda>m. ?f m = (b, a)) (match_tbl s)"
      unfolding pair_rows_def
    proof (rule filter_cong [OF refl])
      fix m assume "m \<in> set (match_tbl s)"
      with ord [of m] False
      show "((userId1 m = a \<and> userId2 m = b) \<or> (userId1 m = b \<and> userId2 m = a)) = (?f m = (b, a))"
        by auto
    qed
    with filter_key_distinct [OF dist, of "(b, a)"] show ?thesis by simp
  qed
qed

lemma first_like:
  assumes "\<not> acted s A B" and "\<not> has_like s B A"
  shows "response (view_handler d None A B True s) = Some \<lparr>match = False, ok = True\<rparr> \<and>
         match_tbl (step d s (POST_view A B True None)) = match_tbl s \<and>
         has_like (step d s (POST_view A B True None)) A B"
  using assms
  by (simp add: view_handler_fresh response_def step_view_match_tbl step_view_view_tbl has_like_def)

lemma second_like:
  assumes inv: "match_inv s" and like: "has_like s A B" and fresh: "\<not> acted s B A"
  shows "response (view_handler d None B A True s) = Some \<lparr>match = True, ok = True\<rparr> \<and>
         pair_rows (step d s (POST_view B A True None)) A B = [new_match_row d (getUserIdOrder A B)] \<and>
         fst (getUserIdOrder A B) < snd (getUserIdOrder A B)"
proof -
  from like have "acted s A B" by (rule has_like_acted)
  with fresh have neq: "A \<noteq> B" by auto
  have "\<not> has_match s A B"
  proof
    assume "has_match s A B"
    with inv have "has_like s B A" by (auto dest: match_inv_has_match)
    with fresh show False by (auto dest: has_like_acted)
  qed
  then have none: "pair_rows s A B = []" by (rule pair_rows_none)
  have tbl: "match_tbl (step d s (POST_view B A True None)) =
      match_tbl s @ [new_match_row d (getUserIdOrder A B)]"
    using like fresh by (simp add: step_view_match_tbl)
  have row: "pair_rows (step d s (POST_view B A True None)) A B = [new_match_row d (getUserIdOrder A B)]"
    using none getUserIdOrder_cases [of A B]
    by (auto simp: pair_rows_def tbl new_match_row_def)
  have resp: "response (view_handler d None B A True s) = Some \<lparr>match = True, ok = True\<rparr>"
    using like fresh by (simp add: view_handler_fresh response_def)
  from resp row getUserIdOrder_strict [OF neq] show ?thesis by simp
qed

lemma only_path:
  assumes "length (match_tbl s) < length (match_tbl (step d s r))"
  shows "\<exists>me u. r = POST_view me u True None \<and> has_like s u me \<and>
           response (view_handler d None me u True s) = Some \<lparr>match = True, ok = True\<rparr>"
proof -
  have len: "length (match_tbl s) = length (pairs s)"
    "length (match_tbl (step d s r)) = length (pairs (step d s r))"
    by (simp_all add: pairs_def)
  from pairs_step [of d s r] show ?thesis
  proof (elim disjE exE conjE)
    assume "pairs (step d s r) = pairs s"
    with assms len show ?thesis by simp
  next
    fix ids assume "pairs (step d s r) = filter (\<lambda>p. p \<noteq> ids) (pairs s)"
    then have "length (pairs (step d s r)) \<le> length (pairs s)" by simp
    with assms len show ?thesis by simp
  next
    fix me u :: userId
    assume "r = POST_view me u True None" "\<not> acted s me u" "has_like s u me"
    then show ?thesis
      by (auto simp: view_handler_fresh response_def)
  qed
qed

subsection \<open>Running the examples\<close>

lemma example_initial: "initial empty_state"
  by (simp add: initial_def empty_state_def)

lemma example_tables:
  "view_tbl empty_state = []" "match_tbl empty_state = []"
  by (simp_all add: empty_state_def)

lemma run_Nil: "run d s [] = s"
  by (simp add: run_def)

lemma run_Cons: "run d s (r # rs) = run d (step d s r) rs"
  by (simp add: run_def)

lemmas example_eval =
  run_Nil run_Cons step_view_view_tbl step_view_match_tbl step_unmatch_tables
  example_tables acted_def has_like_def has_match_def pair_rows_def new_match_row_def
  getUserIdOrder_def example_defaults_def Match_delete_def

section \<open>Match formation\<close>

text \<open>
  C1. Requests are handled one at a time, from a state with no View and no Match. Whatever
  requests came before: a like of A for B, A's first action on B and with no like of B for A
  recorded, is answered \<open>{match: false, ok: true}\<close>, records the like and creates no Match
  row. A like of B for A, B's first action on A and with A's like recorded, is answered
  \<open>{match: true, ok: true}\<close>, and after it the Match table has exactly one row for the pair,
  in either order of the two identifiers: the row of the canonical order, whose first
  identifier is smaller than the second. At every moment a pair has at most one row and
  every row is in canonical order. A request that adds a row to the Match table is a like
  sent to POST /view whose reciprocal like was recorded before, and its response is
  \<open>{match: true, ok: true}\<close>.
\<close>

theorem C1_mutual_like:
  assumes "initial s0"
  shows "(\<not> acted (run d s0 rs) A B \<and> \<not> has_like (run d s0 rs) B A \<longrightarrow>
            response (view_handler d None A B True (run d s0 rs)) = Some \<lparr>match = False, ok = True\<rparr> \<and>
            match_tbl (step d (run d s0 rs) (POST_view A B True None)) = match_tbl (run d s0 rs) \<and>
            has_like (step d (run d s0 rs) (POST_view A B True None)) A B) \<and>
         (has_like (run d s0 rs) A B \<and> \<not> acted (run d s0 rs) B A \<longrightarrow>
            response (view_handler d None B A True (run d s0 rs)) = Some \<lparr>match = True, ok = True\<rparr> \<and>
            pair_rows (step d (run d s0 rs) (POST_view B A True None)) A B =
              [new_match_row d (getUserIdOrder A B)] \<and>
            fst (getUserIdOrder A B) < snd (getUserIdOrder A B)) \<and>
         length (pair_rows (run d s0 rs) A B) \<le> 1 \<and>
         (\<forall>m \<in> set (match_tbl (run d s0 rs)). userId1 m < userId2 m) \<and>
         (length (match_tbl (run d s0 rs)) < length (match_tbl (step d (run d s0 rs) r)) \<longrightarrow>
            (\<exists>me u. r = POST_view me u True None \<and> has_like (run d s0 rs) u me \<and>
               response (view_handler d None me u True (run d s0 rs)) =
                 Some \<lparr>match = True, ok = True\<rparr>))"
proof -
  have inv: "match_inv (run d s0 rs)"
    using assms by (rule match_inv_run)
  show ?thesis
    using first_like [of "run d s0 rs" A B d] second_like [OF inv, of A B d]
      match_inv_at_most_one [OF inv, of A B] match_inv_rows [OF inv]
      only_path [of "run d s0 rs" d r]
    by blast
qed


theorem C1_witness:
  "initial empty_state \<and>
   \<not> acted (run example_defaults empty_state []) ''alice'' ''bob'' \<and>
   \<not> has_like (run example_defaults empty_state []) ''bob'' ''alice'' \<and>
   response (view_handler example_defaults None ''alice'' ''bob'' True
      (run example_defaults empty_state [])) = Some \<lparr>match = False, ok = True\<rparr> \<and>
   has_like (run example_defaults empty_state [POST_view ''alice'' ''bob'' True None]) ''alice'' ''bob'' \<and>
   \<not> acted (run example_defaults empty_state [POST_view ''alice'' ''bob'' True None]) ''bob'' ''alice'' \<and>
   response (view_handler example_defaults None ''bob'' ''alice'' True
      (run example_defaults empty_state [POST_view ''alice'' ''bob'' True None])) =
     Some \<lparr>match = True, ok = True\<rparr> \<and>
   pair_rows (run example_defaults empty_state
       [POST_view ''alice'' ''bob'' True None, POST_view ''bob'' ''alice'' True None]) ''alice'' ''bob'' =
     [\<lparr>userId1 = ''alice'', userId2 = ''bob'', read1 = False, read2 = False, unmatched = False\<rparr>] \<and>
   length (match_tbl (run example_defaults empty_state [POST_view ''alice'' ''bob'' True None])) <
     length (match_tbl (step example_defaults
       (run example_defaults empty_state [POST_view ''alice'' ''bob'' True None])
       (POST_view ''bob'' ''alice'' True None)))"
  using C1_mutual_like [OF example_initial, of example_defaults "[]" "''alice''" "''bob''"]
    C1_mutual_like [OF example_initial, of example_defaults "[POST_view ''alice'' ''bob'' True None]"
      "''alice''" "''bob''" "POST_view ''bob'' ''alice'' True None"]
  by (simp add: example_eval example_initial)

section \<open>Repeated actions\<close>

lemma acted_run: "acted s a b \<Longrightarrow> acted (run d s rs) a b"
  by (induction rs arbitrary: s) (simp_all add: run_Nil run_Cons acted_step)

lemma view_rows_run:
  "length (view_rows s a b) = 1 \<Longrightarrow> length (view_rows (run d s rs) a b) = 1"
  by (induction rs arbitrary: s) (simp_all add: run_Nil run_Cons view_rows_step)

lemma first_action:
  assumes "\<not> acted s me u"
  shows "map_option ok (response (view_handler d None me u l s)) = Some True \<and>
         acted (step d s (POST_view me u l None)) me u \<and>
         length (view_rows (step d s (POST_view me u l None)) me u) = 1"
proof -
  from assms have "view_rows s me u = []"
    by (auto simp: view_rows_def acted_def filter_empty_conv)
  with assms show ?thesis
    by (simp add: view_handler_fresh response_def step_view_view_tbl acted_def view_rows_def)
qed

lemma other_failures:
  assumes "\<not> str_includes msg ''duplicate key''"
  shows "fst (view_handler d (Some (insert_rejects msg)) me u l s) = Inl msg \<and>
         fst (view_handler d (Some (findOne_rejects msg)) me u True s) = Inl msg"
  using assms
  by (cases "acted s me u")
     (simp_all add: view_handler_def view_queries_def Let_def View_insert_acted View_insert_fresh)

lemma Match_insert_failure:
  assumes "\<not> acted s me u" and "has_like s u me"
  shows "fst (view_handler d (Some (Match_insert_rejects msg)) me u True s) = Inl msg"
proof -
  from assms(2) obtain v where "View_findOne (view_tbl s) u me True = Some v"
    using findOne_like [of s u me] by auto
  with assms(1) show ?thesis
    by (simp add: view_handler_def view_queries_def Let_def View_insert_fresh)
qed

text \<open>
  C2. A like or dislike of an actor on a target the actor has a View on already is answered
  \<open>{match: false, ok: false}\<close> and changes nothing. So after a first action on the target,
  which is answered with \<open>ok: true\<close>, and any requests after it, a further like or dislike
  by the same actor on the same target gets that answer, and the View table still has
  exactly one row of the actor on the target. A failure of the store is not answered that
  way: a rejection of the insert or of the lookup whose message does not contain
  \<open>duplicate key\<close> leaves the handler as an error, and so does a rejection of the insert
  of the Match.
\<close>

theorem C2_duplicate_action:
  "(acted s me u \<longrightarrow>
      view_handler d None me u l s = (Inr \<lparr>match = False, ok = False\<rparr>, s)) \<and>
   (\<not> acted s me u \<longrightarrow>
      map_option ok (response (view_handler d None me u l s)) = Some True \<and>
      view_handler d None me u l' (run d (step d s (POST_view me u l None)) rs) =
        (Inr \<lparr>match = False, ok = False\<rparr>, run d (step d s (POST_view me u l None)) rs) \<and>
      length (view_rows (run d (step d s (POST_view me u l None)) rs) me u) = 1) \<and>
   (\<not> str_includes msg ''duplicate key'' \<longrightarrow>
      fst (view_handler d (Some (insert_rejects msg)) me u l s) = Inl msg \<and>
      fst (view_handler d (Some (findOne_rejects msg)) me u True s) = Inl msg) \<and>
   (\<not> acted s me u \<and> has_like s u me \<longrightarrow>
      fst (view_handler d (Some (Match_insert_rejects msg)) me u True s) = Inl msg)"
proof -
  have a: "acted s me u \<longrightarrow>
      view_handler d None me u l s = (Inr \<lparr>match = False, ok = False\<rparr>, s)"
    by (simp add: view_handler_duplicate)
  have b: "\<not> acted s me u \<longrightarrow>
      map_option ok (response (view_handler d None me u l s)) = Some True \<and>
      view_handler d None me u l' (run d (step d s (POST_view me u l None)) rs) =
        (Inr \<lparr>match = False, ok = False\<rparr>, run d (step d s (POST_view me u l None)) rs) \<and>
      length (view_rows (run d (step d s (POST_view me u l None)) rs) me u) = 1"
  proof
    assume fresh: "\<not> acted s me u"
    note first = first_action [OF fresh, of d l]
    from first have "acted (run d (step d s (POST_view me u l None)) rs) me u"
      by (simp add: acted_run)
    then have dup: "view_handler d None me u l' (run d (step d s (POST_view me u l None)) rs) =
        (Inr \<lparr>match = False, ok = False\<rparr>, run d (step d s (POST_view me u l None)) rs)"
      by (rule view_handler_duplicate)
    from first have "length (view_rows (run d (step d s (POST_view me u l None)) rs) me u) = 1"
      by (simp add: view_rows_run)
    with first dup show "map_option ok (response (view_handler d None me u l s)) = Some True \<and>
      view_handler d None me u l' (run d (step d s (POST_view me u l None)) rs) =
        (Inr \<lparr>match = False, ok = False\<rparr>, run d (step d s (POST_view me u l None)) rs) \<and>
      length (view_rows (run d (step d s (POST_view me u l None)) rs) me u) = 1"
      by simp
  qed
  from a b other_failures [of msg d me u l s] Match_insert_failure [of s me u d msg]
  show ?thesis by blast
qed

theorem C2_witness:
  "\<not> acted empty_state ''alice'' ''bob'' \<and>
   map_option ok (response (view_handler example_defaults None ''alice'' ''bob'' True empty_state)) =
     Some True \<and>
   response (view_handler example_defaults None ''alice'' ''bob'' False
      (run example_defaults (step example_defaults empty_state (POST_view ''alice'' ''bob'' True None))
         [POST_view ''bob'' ''alice'' True None])) = Some \<lparr>match = False, ok = False\<rparr> \<and>
   view_rows (run example_defaults (step example_defaults empty_state (POST_view ''alice'' ''bob'' True None))
         [POST_view ''bob'' ''alice'' True None]) ''alice'' ''bob'' =
     [\<lparr>viewerId = ''alice'', targetId = ''bob'', liked = True\<rparr>] \<and>
   acted (step example_defaults empty_state (POST_view ''alice'' ''bob'' True None)) ''alice'' ''bob'' \<and>
   response (view_handler example_defaults None ''alice'' ''bob'' True
      (step example_defaults empty_state (POST_view ''alice'' ''bob'' True None))) =
     Some \<lparr>match = False, ok = False\<rparr> \<and>
   \<not> str_includes ''Connection terminated unexpectedly'' ''duplicate key'' \<and>
   fst (view_handler example_defaults (Some (insert_rejects ''Connection terminated unexpectedly''))
      ''alice'' ''bob'' True empty_state) = Inl ''Connection terminated unexpectedly'' \<and>
   has_like (step example_defaults empty_state (POST_view ''alice'' ''bob'' True None)) ''alice'' ''bob'' \<and>
   \<not> acted (step example_defaults empty_state (POST_view ''alice'' ''bob'' True None)) ''bob'' ''alice'' \<and>
   fst (view_handler example_defaults (Some (Match_insert_rejects ''Connection terminated unexpectedly''))
      ''bob'' ''alice'' True
      (step example_defaults empty_state (POST_view ''alice'' ''bob'' True None))) =
     Inl ''Connection terminated unexpectedly''"
  using C2_duplicate_action [of empty_state "''alice''" "''bob''" example_defaults True False
      "[POST_view ''bob'' ''alice'' True None]" "''Connection terminated unexpectedly''"]
    C2_duplicate_action [of "step example_defaults empty_state (POST_view ''alice'' ''bob'' True None)"
      "''alice''" "''bob''" example_defaults True True "[]" "''Connection terminated unexpectedly''"]
    C2_duplicate_action [of "step example_defaults empty_state (POST_view ''alice'' ''bob'' True None)"
      "''bob''" "''alice''" example_defaults True True "[]" "''Connection terminated unexpectedly''"]
  by (simp add: example_eval response_def view_rows_def)

section \<open>Matches and likes\<close>









section \<open>Delivery of a message\<close>

lemma marks_unread_update:
  "marks_unread S R ms
     (Match_update
        (\<lambda>r. userId1 r = fst (getUserIdOrder S R) \<and> userId2 r = snd (getUserIdOrder S R) \<and>
              unmatched r = False)
        (\<lambda>r. if fst (getUserIdOrder S R) = R then r\<lparr>read1 := False\<rparr> else r\<lparr>read2 := False\<rparr>) ms)"
  unfolding marks_unread_def Match_update_def
  by (induction ms) (auto simp: prod_eq_iff)

lemma message_connected:
  assumes "wsUsers s R = Some e"
  shows "wsSent (snd (message_handler now S R body s)) =
           wsSent s @ [(ws e, new_message (fst (message_handler now S R body s)))] \<and>
         pushQueue (snd (message_handler now S R body s)) = pushQueue s"
  using assms by (simp add: message_handler_def Let_def wsSend_def)

lemma message_unread:
  assumes "wsUsers s R = None \<or> (\<exists>e. wsUsers s R = Some e \<and> openChatUserId e \<noteq> Some S)"
  shows "marks_unread S R (match_tbl s) (match_tbl (snd (message_handler now S R body s)))"
  using assms marks_unread_update [of S R "match_tbl s"]
  by (auto simp: message_handler_def Let_def wsSend_def)

lemma message_absent:
  assumes "wsUsers s R = None"
  shows "wsSent (snd (message_handler now S R body s)) = wsSent s \<and>
         pushQueue (snd (message_handler now S R body s)) =
           pushQueue s @ [\<lparr>idToSendTo = R, otherId = S, job_type = push_message,
                           job_text = Some (take 100 body)\<rparr>]"
  using assms by (simp add: message_handler_def Let_def wsSend_def)

text \<open>
  C6, amended. When the recipient R is connected and the chat R has open is not the one
  with the sender S, the message goes to R's socket as a \<open>new-message\<close> frame, the Match row
  of the pair that is not unmatched gets R's read flag set to false (\<open>read1\<close> when R is the
  first identifier of the canonical order, \<open>read2\<close> otherwise) with the other flag and all
  other rows as they were, and nothing is added to the push queue. The push job, whose
  text is the first 100 characters of the message, is added only when R has no live
  connection; the unread marker is written then as well.
\<close>

theorem C6_unfocused_delivery:
  "(wsUsers s R = Some e \<and> openChatUserId e \<noteq> Some S \<longrightarrow>
      marks_unread S R (match_tbl s) (match_tbl (snd (message_handler now S R body s))) \<and>
      wsSent (snd (message_handler now S R body s)) =
        wsSent s @ [(ws e, new_message (fst (message_handler now S R body s)))] \<and>
      pushQueue (snd (message_handler now S R body s)) = pushQueue s) \<and>
   (wsUsers s R = None \<longrightarrow>
      marks_unread S R (match_tbl s) (match_tbl (snd (message_handler now S R body s))) \<and>
      wsSent (snd (message_handler now S R body s)) = wsSent s \<and>
      pushQueue (snd (message_handler now S R body s)) =
        pushQueue s @ [\<lparr>idToSendTo = R, otherId = S, job_type = push_message,
                        job_text = Some (take 100 body)\<rparr>] \<and>
      length (take 100 body) \<le> 100)"
proof -
  have a: "wsUsers s R = Some e \<and> openChatUserId e \<noteq> Some S \<longrightarrow>
      marks_unread S R (match_tbl s) (match_tbl (snd (message_handler now S R body s))) \<and>
      wsSent (snd (message_handler now S R body s)) =
        wsSent s @ [(ws e, new_message (fst (message_handler now S R body s)))] \<and>
      pushQueue (snd (message_handler now S R body s)) = pushQueue s"
    using message_unread [of s R S now body] message_connected [of s R e now S body] by blast
  have b: "wsUsers s R = None \<longrightarrow>
      marks_unread S R (match_tbl s) (match_tbl (snd (message_handler now S R body s))) \<and>
      wsSent (snd (message_handler now S R body s)) = wsSent s \<and>
      pushQueue (snd (message_handler now S R body s)) =
        pushQueue s @ [\<lparr>idToSendTo = R, otherId = S, job_type = push_message,
                        job_text = Some (take 100 body)\<rparr>] \<and>
      length (take 100 body) \<le> 100"
    using message_unread [of s R S now body] message_absent [of s R now S body] by simp
  from a b show ?thesis by (rule conjI)
qed

theorem C6_witness:
  "wsUsers (chat_state None True) ''bob'' = Some \<lparr>ws = 1, openChatUserId = None\<rparr> \<and>
   openChatUserId \<lparr>ws = 1, openChatUserId = None\<rparr> \<noteq> Some ''alice'' \<and>
   match_tbl (snd (message_handler 9 ''alice'' ''bob'' ''hello'' (chat_state None True))) =
     [\<lparr>userId1 = ''alice'', userId2 = ''bob'', read1 = True, read2 = False, unmatched = False\<rparr>] \<and>
   wsSent (snd (message_handler 9 ''alice'' ''bob'' ''hello'' (chat_state None True))) =
     [(1, new_message \<lparr>senderId = ''alice'', recipientId = ''bob'', msg_text = ''hello'',
                       createdAt = 9\<rparr>)] \<and>
   wsUsers (chat_state None True) ''alice'' = None \<and>
   match_tbl (snd (message_handler 9 ''bob'' ''alice'' ''hello'' (chat_state None True))) =
     [\<lparr>userId1 = ''alice'', userId2 = ''bob'', read1 = False, read2 = True, unmatched = False\<rparr>] \<and>
   pushQueue (snd (message_handler 9 ''bob'' ''alice'' ''hello'' (chat_state None True))) =
     [\<lparr>idToSendTo = ''alice'', otherId = ''bob'', job_type = push_message,
       job_text = Some ''hello''\<rparr>]"
  using C6_unfocused_delivery [of "chat_state None True" "''bob''"
      "\<lparr>ws = 1, openChatUserId = None\<rparr>" "''alice''" 9 "''hello''"]
    C6_unfocused_delivery [of "chat_state None True" "''alice''"
      "\<lparr>ws = 1, openChatUserId = None\<rparr>" "''bob''" 9 "''hello''"]
  by (simp add: chat_state_def message_handler_def Let_def wsSend_def Match_update_def
      getUserIdOrder_def)

text \<open>
  The claim as stated fails: Bob is connected with no chat open, Alice writes to him, and
  the push queue stays empty.
\<close>

theorem C6_counterexample:
  "wsUsers (chat_state None True) ''bob'' = Some \<lparr>ws = 1, openChatUserId = None\<rparr> \<and>
   openChatUserId \<lparr>ws = 1, openChatUserId = None\<rparr> \<noteq> Some ''alice'' \<and>
   pushQueue (snd (message_handler 9 ''alice'' ''bob'' ''hello'' (chat_state None True))) = []"
  by (simp add: chat_state_def message_handler_def Let_def wsSend_def)

text \<open>
  C7. When the recipient R is connected and has the chat with the sender S open, the
  message of the response goes to R's socket as a \<open>new-message\<close> frame, nothing is added to
  the push queue, and the Match table is as it was, so R's read flag is not touched.
\<close>

theorem C7_focused_delivery:
  assumes "wsUsers s R = Some e" and "openChatUserId e = Some S"
  shows "fst (message_handler now S R body s) =
           \<lparr>senderId = S, recipientId = R, msg_text = body, createdAt = now\<rparr> \<and>
         wsSent (snd (message_handler now S R body s)) =
           wsSent s @ [(ws e, new_message (fst (message_handler now S R body s)))] \<and>
         pushQueue (snd (message_handler now S R body s)) = pushQueue s \<and>
         match_tbl (snd (message_handler now S R body s)) = match_tbl s"
  using assms by (simp add: message_handler_def Let_def wsSend_def)

theorem C7_witness:
  "wsUsers (chat_state (Some ''alice'') True) ''bob'' = Some \<lparr>ws = 1, openChatUserId = Some ''alice''\<rparr> \<and>
   wsSent (snd (message_handler 9 ''alice'' ''bob'' ''hello'' (chat_state (Some ''alice'') True))) =
     [(1, new_message \<lparr>senderId = ''alice'', recipientId = ''bob'', msg_text = ''hello'',
                       createdAt = 9\<rparr>)] \<and>
   pushQueue (snd (message_handler 9 ''alice'' ''bob'' ''hello'' (chat_state (Some ''alice'') True))) = [] \<and>
   match_tbl (snd (message_handler 9 ''alice'' ''bob'' ''hello'' (chat_state (Some ''alice'') True))) =
     [\<lparr>userId1 = ''alice'', userId2 = ''bob'', read1 = True, read2 = True, unmatched = False\<rparr>]"
  using C7_focused_delivery [of "chat_state (Some ''alice'') True" "''bob''"
      "\<lparr>ws = 1, openChatUserId = Some ''alice''\<rparr>" "''alice''" 9 "''hello''"]
  by (simp add: chat_state_def)

section \<open>Fetching a conversation\<close>

lemma marks_read_update:
  "marks_read me other ms
     (Match_update
        (\<lambda>r. userId1 r = fst (getUserIdOrder other me) \<and> userId2 r = snd (getUserIdOrder other me))
        (\<lambda>r. if fst (getUserIdOrder other me) = me then r\<lparr>read1 := True\<rparr> else r\<lparr>read2 := True\<rparr>) ms)"
  unfolding marks_read_def Match_update_def
  by (induction ms) (auto simp: prod_eq_iff)

lemma getMany_eq:
  "getMany ms me other cursor =
     (if bad_date cursor then Inl ''invalid input syntax for type timestamp''
      else Inr (newest_21 (eligible me other cursor) ms))"
proof -
  have "(\<lambda>m. between_users me other m \<and> createdAt m < c) = eligible me other (Some (Finite c))"
    if "c \<noteq> 0" for c
    using that by (auto simp: eligible_def fun_eq_iff)
  moreover have "between_users me other = eligible me other cursor"
    if "\<not> (truthy cursor \<and> isInteger cursor)"
    using that
    by (auto simp: eligible_def truthy_def isInteger_def fun_eq_iff
        split: option.splits js_number.splits)
  ultimately show ?thesis
    by (auto simp: getMany_def bad_date_def truthy_def isInteger_def
        split: option.splits js_number.splits)
qed

lemma get_messages_match_tbl:
  "match_tbl (snd (get_messages_handler me other cursor s)) =
     (if \<not> truthy cursor
      then Match_update
        (\<lambda>r. userId1 r = fst (getUserIdOrder other me) \<and> userId2 r = snd (getUserIdOrder other me))
        (\<lambda>r. if fst (getUserIdOrder other me) = me then r\<lparr>read1 := True\<rparr> else r\<lparr>read2 := True\<rparr>)
        (match_tbl s)
      else match_tbl s)"
  by (auto simp: get_messages_handler_def getMany_eq bad_date_def truthy_def Let_def
      split: option.splits js_number.splits)

lemma get_messages_bad_date:
  "bad_date cursor \<Longrightarrow>
   get_messages_handler me other cursor s = (Inl ''invalid input syntax for type timestamp'', s)"
  by (simp add: get_messages_handler_def getMany_eq)

lemma get_messages_page:
  "\<not> bad_date cursor \<Longrightarrow>
   fst (get_messages_handler me other cursor s) =
     Inr \<lparr>messages = take 20 (sort_key (\<lambda>m. - createdAt m)
                          (filter (eligible me other cursor) (message_tbl s))),
          hasMore = (21 \<le> length (filter (eligible me other cursor) (message_tbl s)))\<rparr>"
  by (auto simp: get_messages_handler_def getMany_eq newest_21_def Let_def min_def)

lemma newest_first_sort: "newest_first (sort_key (\<lambda>m. - createdAt m) ms)"
proof -
  have "sorted (map (\<lambda>m. - createdAt m) (sort_key (\<lambda>m. - createdAt m) ms))"
    by (rule sorted_sort_key)
  then show ?thesis
    by (simp add: newest_first_def sorted_map)
qed

lemma newest_first_take: "newest_first ms \<Longrightarrow> newest_first (take n ms)"
  by (simp add: newest_first_def)

text \<open>The first rows of a list that is newest first are the newest: no row left out is newer.\<close>

lemma newest_first_closed:
  assumes sorted: "newest_first rows" and page: "m \<in> set (take n rows)"
    and row: "m' \<in> set rows" and newer: "createdAt m < createdAt m'"
  shows "m' \<in> set (take n rows)"
proof -
  from page obtain i where i: "i < n" "i < length rows" "rows ! i = m"
    by (auto simp: in_set_conv_nth)
  from row obtain k where k: "k < length rows" "rows ! k = m'"
    by (auto simp: in_set_conv_nth)
  have "k < n"
  proof (rule ccontr)
    assume "\<not> k < n"
    with i have "i < k" by simp
    with sorted k have "createdAt (rows ! k) \<le> createdAt (rows ! i)"
      by (auto simp: newest_first_def sorted_wrt_iff_nth_less)
    with i k newer show False by simp
  qed
  with k show ?thesis
    by (auto simp: in_set_conv_nth intro!: exI [of _ k])
qed

text \<open>
  C9, amended. A fetch without a cursor, or with the cursor 0 (which the handler treats as
  no cursor), sets the read flag of the fetching user to true in the Match row of the pair,
  \<open>read1\<close> when the user is the first identifier of the canonical order and \<open>read2\<close>
  otherwise, which clears the unread marker; the handler does so itself, as a side effect
  of the fetch. The other flag and all other rows are as they were. A fetch with a cursor
  other than 0 leaves the Match table as it was.
\<close>

theorem C9_read_flag:
  "(cursor = None \<or> cursor = Some (Finite 0) \<longrightarrow>
      marks_read me other (match_tbl s) (match_tbl (snd (get_messages_handler me other cursor s)))) \<and>
   (\<forall>c. cursor = Some c \<and> c \<noteq> Finite 0 \<longrightarrow>
      match_tbl (snd (get_messages_handler me other cursor s)) = match_tbl s)"
  using marks_read_update [of me other "match_tbl s"]
  by (auto simp: get_messages_match_tbl truthy_def split: js_number.splits)

theorem C9_witness:
  "match_tbl (snd (get_messages_handler ''bob'' ''alice'' None (chat_state None False))) =
     [\<lparr>userId1 = ''alice'', userId2 = ''bob'', read1 = False, read2 = True, unmatched = False\<rparr>] \<and>
   match_tbl (snd (get_messages_handler ''alice'' ''bob'' None (chat_state None False))) =
     [\<lparr>userId1 = ''alice'', userId2 = ''bob'', read1 = True, read2 = False, unmatched = False\<rparr>] \<and>
   match_tbl (snd (get_messages_handler ''bob'' ''alice'' (Some (Finite 6)) (chat_state None False))) =
     match_tbl (chat_state None False) \<and>
   match_tbl (snd (get_messages_handler ''bob'' ''alice'' (Some Minus_Infinity) (chat_state None False))) =
     match_tbl (chat_state None False)"
  using C9_read_flag [of None "''bob''" "''alice''" "chat_state None False"]
    C9_read_flag [of None "''alice''" "''bob''" "chat_state None False"]
    C9_read_flag [of "Some (Finite 6)" "''bob''" "''alice''" "chat_state None False"]
    C9_read_flag [of "Some Minus_Infinity" "''bob''" "''alice''" "chat_state None False"]
  by (simp add: get_messages_match_tbl truthy_def chat_state_def Match_update_def getUserIdOrder_def)

text \<open>
  The claim as stated fails for a fetch with the cursor 0: Bob's flag \<open>read2\<close> was false
  and is true after the fetch.
\<close>

theorem C9_counterexample:
  "match_tbl (chat_state None False) =
     [\<lparr>userId1 = ''alice'', userId2 = ''bob'', read1 = False, read2 = False, unmatched = False\<rparr>] \<and>
   match_tbl (snd (get_messages_handler ''bob'' ''alice'' (Some (Finite 0)) (chat_state None False))) =
     [\<lparr>userId1 = ''alice'', userId2 = ''bob'', read1 = False, read2 = True, unmatched = False\<rparr>]"
  by (simp add: get_messages_match_tbl truthy_def chat_state_def Match_update_def getUserIdOrder_def)

text \<open>
  C10, amended. A fetch gets a page unless its cursor is an integer other than 0 that is
  more than 8640000000000000 milliseconds from the epoch; then the query fails, no page is
  sent and the state is as it was. The eligible messages of a fetch are the rows of the
  Message table exchanged between the two users and, when the cursor is an integer other
  than 0, created strictly before the cursor; a cursor of 0 and an infinite cursor are
  treated as no cursor. The page is the first 20 of the eligible messages put newest first
  by \<open>createdAt\<close>, all of them when there are fewer: so it has at most 20 messages, newest
  first, each of them eligible, and no eligible message left out is newer than one of the
  page. \<open>hasMore\<close> is true exactly when at least 21 messages are eligible.
\<close>

theorem C10_page:
  "(bad_date cursor \<longrightarrow>
      (\<exists>msg. get_messages_handler me other cursor s = (Inl msg, s))) \<and>
   (\<not> bad_date cursor \<longrightarrow>
      (\<exists>rows. mset rows = mset (filter (eligible me other cursor) (message_tbl s)) \<and>
         newest_first rows \<and>
         fst (get_messages_handler me other cursor s) =
           Inr \<lparr>messages = take 20 rows, hasMore = (21 \<le> length rows)\<rparr>)) \<and>
   (\<forall>resp. fst (get_messages_handler me other cursor s) = Inr resp \<longrightarrow>
      length (messages resp) = min 20 (length (filter (eligible me other cursor) (message_tbl s))) \<and>
      newest_first (messages resp) \<and>
      (\<forall>m \<in> set (messages resp).
         m \<in> set (message_tbl s) \<and> between_users me other m \<and>
         (\<forall>c. cursor = Some (Finite c) \<and> c \<noteq> 0 \<longrightarrow> createdAt m < c)) \<and>
      (\<forall>m \<in> set (messages resp). \<forall>m' \<in> set (message_tbl s).
         eligible me other cursor m' \<and> createdAt m < createdAt m' \<longrightarrow> m' \<in> set (messages resp)) \<and>
      (hasMore resp \<longleftrightarrow> 21 \<le> length (filter (eligible me other cursor) (message_tbl s))))"
proof -
  let ?el = "filter (eligible me other cursor) (message_tbl s)"
  let ?rows = "sort_key (\<lambda>m. - createdAt m) ?el"
  have sorted: "newest_first ?rows" by (rule newest_first_sort)
  have a: "bad_date cursor \<longrightarrow> (\<exists>msg. get_messages_handler me other cursor s = (Inl msg, s))"
    by (auto simp: get_messages_bad_date)
  have b: "\<not> bad_date cursor \<longrightarrow>
      (\<exists>rows. mset rows = mset ?el \<and> newest_first rows \<and>
         fst (get_messages_handler me other cursor s) =
           Inr \<lparr>messages = take 20 rows, hasMore = (21 \<le> length rows)\<rparr>)"
  proof
    assume "\<not> bad_date cursor"
    then have "fst (get_messages_handler me other cursor s) =
        Inr \<lparr>messages = take 20 ?rows, hasMore = (21 \<le> length ?rows)\<rparr>"
      by (simp add: get_messages_page)
    with sorted show "\<exists>rows. mset rows = mset ?el \<and> newest_first rows \<and>
         fst (get_messages_handler me other cursor s) =
           Inr \<lparr>messages = take 20 rows, hasMore = (21 \<le> length rows)\<rparr>"
      by (intro exI [of _ ?rows]) simp
  qed
  have c: "length (messages resp) = min 20 (length ?el) \<and>
      newest_first (messages resp) \<and>
      (\<forall>m \<in> set (messages resp).
         m \<in> set (message_tbl s) \<and> between_users me other m \<and>
         (\<forall>c. cursor = Some (Finite c) \<and> c \<noteq> 0 \<longrightarrow> createdAt m < c)) \<and>
      (\<forall>m \<in> set (messages resp). \<forall>m' \<in> set (message_tbl s).
         eligible me other cursor m' \<and> createdAt m < createdAt m' \<longrightarrow> m' \<in> set (messages resp)) \<and>
      (hasMore resp \<longleftrightarrow> 21 \<le> length ?el)"
    if resp: "fst (get_messages_handler me other cursor s) = Inr resp" for resp
  proof -
    have ok: "\<not> bad_date cursor"
      using resp by (auto simp: get_messages_bad_date)
    with resp have page: "messages resp = take 20 ?rows" and more: "hasMore resp = (21 \<le> length ?el)"
      by (auto simp: get_messages_page)
    have len: "length (take 20 ?rows) = min 20 (length ?el)"
      by (simp add: min_def)
    have ord: "newest_first (take 20 ?rows)"
      using sorted by (rule newest_first_take)
    have mem: "m \<in> set (message_tbl s) \<and> between_users me other m \<and>
        (\<forall>c. cursor = Some (Finite c) \<and> c \<noteq> 0 \<longrightarrow> createdAt m < c)"
      if "m \<in> set (take 20 ?rows)" for m
    proof -
      from that have "m \<in> set ?rows" by (rule in_set_takeD)
      then show ?thesis by (auto simp: eligible_def)
    qed
    have newest: "m' \<in> set (take 20 ?rows)"
      if "m \<in> set (take 20 ?rows)" and "m' \<in> set (message_tbl s)"
        and "eligible me other cursor m'" and "createdAt m < createdAt m'" for m m'
    proof -
      from that(2,3) have "m' \<in> set ?rows" by simp
      with sorted that(1) show ?thesis
        using that(4) by (rule newest_first_closed)
    qed
    from len ord mem newest more show ?thesis
      unfolding page by blast
  qed
  from a b c show ?thesis by blast
qed

theorem C10_witness:
  "\<not> bad_date None \<and> \<not> bad_date (Some (Finite 7)) \<and>
   fst (get_messages_handler ''bob'' ''alice'' None (chat_state None True)) =
     Inr \<lparr>messages =
            [\<lparr>senderId = ''bob'', recipientId = ''alice'', msg_text = ''hey'', createdAt = 7\<rparr>,
             \<lparr>senderId = ''alice'', recipientId = ''bob'', msg_text = ''hi'', createdAt = 5\<rparr>],
          hasMore = False\<rparr> \<and>
   fst (get_messages_handler ''bob'' ''alice'' (Some (Finite 7)) (chat_state None True)) =
     Inr \<lparr>messages =
            [\<lparr>senderId = ''alice'', recipientId = ''bob'', msg_text = ''hi'', createdAt = 5\<rparr>],
          hasMore = False\<rparr> \<and>
   length (filter (eligible ''bob'' ''alice'' (Some (Finite 7))) (message_tbl (chat_state None True))) = 1 \<and>
   bad_date (Some (Finite 8640000000000001)) \<and>
   snd (get_messages_handler ''bob'' ''alice'' (Some (Finite 8640000000000001))
      (chat_state None True)) = chat_state None True"
proof -
  have page: "fst (get_messages_handler ''bob'' ''alice'' None (chat_state None True)) =
     Inr \<lparr>messages =
            [\<lparr>senderId = ''bob'', recipientId = ''alice'', msg_text = ''hey'', createdAt = 7\<rparr>,
             \<lparr>senderId = ''alice'', recipientId = ''bob'', msg_text = ''hi'', createdAt = 5\<rparr>],
          hasMore = False\<rparr>"
    by (simp add: get_messages_page bad_date_def eligible_def between_users_def chat_state_def)
  have older: "fst (get_messages_handler ''bob'' ''alice'' (Some (Finite 7)) (chat_state None True)) =
     Inr \<lparr>messages =
            [\<lparr>senderId = ''alice'', recipientId = ''bob'', msg_text = ''hi'', createdAt = 5\<rparr>],
          hasMore = False\<rparr>"
    by (simp add: get_messages_page bad_date_def date_valid_def eligible_def between_users_def
        chat_state_def)
  have "length (messages \<lparr>messages =
            [\<lparr>senderId = ''alice'', recipientId = ''bob'', msg_text = ''hi'', createdAt = 5\<rparr>],
          hasMore = False\<rparr>) =
      min 20 (length (filter (eligible ''bob'' ''alice'' (Some (Finite 7)))
        (message_tbl (chat_state None True))))"
    using C10_page [of "Some (Finite 7)" "''bob''" "''alice''" "chat_state None True"] older
    by blast
  then have count: "length (filter (eligible ''bob'' ''alice'' (Some (Finite 7)))
      (message_tbl (chat_state None True))) = 1"
    by (simp add: min_def split: if_splits)
  have huge: "bad_date (Some (Finite 8640000000000001))"
    by (simp add: bad_date_def date_valid_def)
  with C10_page [of "Some (Finite 8640000000000001)" "''bob''" "''alice''" "chat_state None True"]
  obtain msg where "get_messages_handler ''bob'' ''alice'' (Some (Finite 8640000000000001))
      (chat_state None True) = (Inl msg, chat_state None True)"
    by blast
  then have same: "snd (get_messages_handler ''bob'' ''alice'' (Some (Finite 8640000000000001))
      (chat_state None True)) = chat_state None True"
    by simp
  have valid: "\<not> bad_date None \<and> \<not> bad_date (Some (Finite 7))"
    by (simp add: bad_date_def date_valid_def)
  from valid page older count huge same show ?thesis by blast
qed

text \<open>
  The claim as stated fails in three ways. With the cursor 0 the page has messages that
  are not older than the cursor. So it has with the cursor minus infinity, which
  \<^verbatim>\<open>parseInt\<close> makes of a negative number of too many digits. With a cursor beyond the
  range of dates the fetch gets no page at all.
\<close>

theorem C10_counterexample:
  "fst (get_messages_handler ''bob'' ''alice'' (Some (Finite 0)) (chat_state None True)) =
     Inr \<lparr>messages =
            [\<lparr>senderId = ''bob'', recipientId = ''alice'', msg_text = ''hey'', createdAt = 7\<rparr>,
             \<lparr>senderId = ''alice'', recipientId = ''bob'', msg_text = ''hi'', createdAt = 5\<rparr>],
          hasMore = False\<rparr> \<and>
   \<not> createdAt \<lparr>senderId = ''bob'', recipientId = ''alice'', msg_text = ''hey'', createdAt = 7\<rparr> < 0 \<and>
   fst (get_messages_handler ''bob'' ''alice'' (Some Minus_Infinity) (chat_state None True)) =
     Inr \<lparr>messages =
            [\<lparr>senderId = ''bob'', recipientId = ''alice'', msg_text = ''hey'', createdAt = 7\<rparr>,
             \<lparr>senderId = ''alice'', recipientId = ''bob'', msg_text = ''hi'', createdAt = 5\<rparr>],
          hasMore = False\<rparr> \<and>
   fst (get_messages_handler ''bob'' ''alice'' (Some (Finite 8640000000000001))
      (chat_state None True)) = Inl ''invalid input syntax for type timestamp''"
  by (simp add: get_messages_page get_messages_bad_date bad_date_def date_valid_def
      eligible_def between_users_def chat_state_def)

section \<open>The handshake\<close>

lemma upgrade_good_state:
  "upgrade verify e fault s q = good uid \<Longrightarrow>
   server_upgrade verify e fault h q s = (good uid, ws_connection h uid s)"
  by (simp add: server_upgrade_def)

lemma upgrade_bad_state:
  "upgrade verify e fault s q = bad \<Longrightarrow> server_upgrade verify e fault h q s = (bad, s)"
  by (simp add: server_upgrade_def)

lemma upgrade_not_supplied:
  "\<not> supplied (accessToken qs) \<or> \<not> supplied (refreshToken qs) \<Longrightarrow>
   upgrade verify e fault s (Some qs) = bad"
  by (auto simp: upgrade_def supplied_def split: query_value.splits)

lemma upgrade_supplied:
  assumes "accessToken qs = Str a" and "refreshToken qs = Str r" and "a \<noteq> []" and "r \<noteq> []"
  shows "upgrade verify e fault s (Some qs) =
     (case verify a (ACCESS_TOKEN_SECRET e) of
        Some data \<Rightarrow> good (data_userId data)
      | None \<Rightarrow>
          (case verify r (REFRESH_TOKEN_SECRET e) of
             None \<Rightarrow> bad
           | Some data \<Rightarrow>
               (case fault of
                  Some msg \<Rightarrow> bad
                | None \<Rightarrow>
                    (case user_tbl s (data_userId data) of
                       None \<Rightarrow> bad
                     | Some u \<Rightarrow>
                         if tokenVersion u \<noteq> data_tokenVersion data then bad
                         else good (data_userId data)))))"
  using assms by (simp add: upgrade_def)

text \<open>
  C4. Both credentials are supplied as strings that are not empty. When the access
  credential does not verify, the refresh credential verifies, the user of its payload is in
  the User table, and the user's stored \<open>tokenVersion\<close> equals the one of the payload, then
  the handler ends in \<open>good\<close> with the user of the refresh credential's payload: the upgrade
  is completed and the connection is emitted for that user, whose entry in the registry
  is then the new socket with no chat open (an identifier is never the empty string).
\<close>

theorem C4_refresh_handshake:
  assumes "accessToken qs = Str a" and "refreshToken qs = Str r" and "a \<noteq> []" and "r \<noteq> []"
    and "verify a (ACCESS_TOKEN_SECRET e) = None"
    and "verify r (REFRESH_TOKEN_SECRET e) = Some data"
    and "user_tbl s (data_userId data) = Some u"
    and "tokenVersion u = data_tokenVersion data"
  shows "upgrade verify e None s (Some qs) = good (data_userId data) \<and>
         fst (server_upgrade verify e None h (Some qs) s) = good (data_userId data) \<and>
         (data_userId data \<noteq> [] \<longrightarrow>
            wsUsers (snd (server_upgrade verify e None h (Some qs) s)) (data_userId data) =
              Some \<lparr>ws = h, openChatUserId = None\<rparr>)"
proof -
  have g: "upgrade verify e None s (Some qs) = good (data_userId data)"
    using assms by (simp add: upgrade_supplied)
  from upgrade_good_state [OF g, of h] g show ?thesis
    by (simp add: ws_connection_def)
qed

theorem C4_witness:
  "example_verify ''expired'' (ACCESS_TOKEN_SECRET example_env) = None \<and>
   example_verify ''refresh-u1-v2'' (REFRESH_TOKEN_SECRET example_env) =
     Some \<lparr>data_userId = ''u1'', data_tokenVersion = 2\<rparr> \<and>
   user_tbl example_users ''u1'' = Some \<lparr>tokenVersion = 2, numLikes = 0\<rparr> \<and>
   upgrade example_verify example_env None example_users
     (Some \<lparr>accessToken = Str ''expired'', refreshToken = Str ''refresh-u1-v2''\<rparr>) = good ''u1'' \<and>
   wsUsers (snd (server_upgrade example_verify example_env None 7
     (Some \<lparr>accessToken = Str ''expired'', refreshToken = Str ''refresh-u1-v2''\<rparr>) example_users)) ''u1'' =
     Some \<lparr>ws = 7, openChatUserId = None\<rparr>"
  using C4_refresh_handshake [of "\<lparr>accessToken = Str ''expired'', refreshToken = Str ''refresh-u1-v2''\<rparr>"
      "''expired''" "''refresh-u1-v2''" example_verify example_env
      "\<lparr>data_userId = ''u1'', data_tokenVersion = 2\<rparr>" example_users
      "\<lparr>tokenVersion = 2, numLikes = 0\<rparr>" 7]
  by (simp add: example_verify_def example_env_def example_users_def)

lemma upgrade_unparsed: "upgrade verify e fault s None = bad"
  by (simp add: upgrade_def)

lemma upgrade_bad_cases:
  assumes "upgrade verify e fault s q = bad"
  shows "q = None \<or>
         (\<exists>qs. q = Some qs \<and>
            (\<not> supplied (accessToken qs) \<or> \<not> supplied (refreshToken qs) \<or>
             (\<exists>a r. accessToken qs = Str a \<and> refreshToken qs = Str r \<and>
                verify a (ACCESS_TOKEN_SECRET e) = None \<and>
                (verify r (REFRESH_TOKEN_SECRET e) = None \<or>
                 (\<exists>data. verify r (REFRESH_TOKEN_SECRET e) = Some data \<and>
                    (fault \<noteq> None \<or> user_tbl s (data_userId data) = None \<or>
                     (\<exists>u. user_tbl s (data_userId data) = Some u \<and>
                        tokenVersion u \<noteq> data_tokenVersion data)))))))"
proof (cases q)
  case None
  then show ?thesis by simp
next
  case (Some qs)
  show ?thesis
  proof (cases "supplied (accessToken qs) \<and> supplied (refreshToken qs)")
    case False
    with Some show ?thesis by auto
  next
    case True
    then obtain a r where ar: "accessToken qs = Str a" "refreshToken qs = Str r" "a \<noteq> []" "r \<noteq> []"
      by (auto simp: supplied_def split: query_value.splits)
    from assms Some have "upgrade verify e fault s (Some qs) = bad" by simp
    with ar have "verify a (ACCESS_TOKEN_SECRET e) = None \<and>
        (verify r (REFRESH_TOKEN_SECRET e) = None \<or>
         (\<exists>data. verify r (REFRESH_TOKEN_SECRET e) = Some data \<and>
            (fault \<noteq> None \<or> user_tbl s (data_userId data) = None \<or>
             (\<exists>u. user_tbl s (data_userId data) = Some u \<and>
                tokenVersion u \<noteq> data_tokenVersion data))))"
      by (auto simp: upgrade_supplied split: option.splits if_splits)
    with Some ar show ?thesis by auto
  qed
qed

lemma upgrade_good_cases:
  assumes "upgrade verify e fault s q = good uid"
  shows "\<exists>qs a r. q = Some qs \<and> accessToken qs = Str a \<and> refreshToken qs = Str r \<and>
           a \<noteq> [] \<and> r \<noteq> [] \<and>
           ((\<exists>data. verify a (ACCESS_TOKEN_SECRET e) = Some data \<and> data_userId data = uid) \<or>
            (verify a (ACCESS_TOKEN_SECRET e) = None \<and>
             (\<exists>data u. verify r (REFRESH_TOKEN_SECRET e) = Some data \<and> data_userId data = uid \<and>
                fault = None \<and> user_tbl s uid = Some u \<and>
                tokenVersion u = data_tokenVersion data)))"
proof (cases q)
  case None
  with assms show ?thesis by (simp add: upgrade_def)
next
  case (Some qs)
  show ?thesis
  proof (cases "supplied (accessToken qs) \<and> supplied (refreshToken qs)")
    case False
    with assms Some upgrade_not_supplied [of qs verify e fault s] show ?thesis by auto
  next
    case True
    then obtain a r where ar: "accessToken qs = Str a" "refreshToken qs = Str r" "a \<noteq> []" "r \<noteq> []"
      by (auto simp: supplied_def split: query_value.splits)
    from assms Some have "upgrade verify e fault s (Some qs) = good uid" by simp
    with ar have "(\<exists>data. verify a (ACCESS_TOKEN_SECRET e) = Some data \<and> data_userId data = uid) \<or>
        (verify a (ACCESS_TOKEN_SECRET e) = None \<and>
         (\<exists>data u. verify r (REFRESH_TOKEN_SECRET e) = Some data \<and> data_userId data = uid \<and>
            fault = None \<and> user_tbl s uid = Some u \<and>
            tokenVersion u = data_tokenVersion data))"
      by (auto simp: upgrade_supplied split: option.splits if_splits)
    with Some ar show ?thesis by auto
  qed
qed

text \<open>
  C5. The handshake is the sequence of the spec: the access credential is verified first,
  and the refresh credential, with the check of its \<open>tokenVersion\<close> against the stored
  one, is looked at only when the access credential does not verify. An upgrade request
  ends in \<open>bad\<close>, which answers \<^verbatim>\<open>401 Unauthorized\<close> and destroys the socket before any
  upgrade, and leaves the state with its registry as it was, in each of these cases: the
  URL does not parse; a credential is not supplied as a string that is not empty; neither
  credential verifies; the access credential does not verify and the refresh credential
  verifies, but the lookup of its user fails, the user is not in the User table, or the
  user's stored \<open>tokenVersion\<close> differs from the one of the payload. These are the only
  requests that end in \<open>bad\<close>. A request that ends in \<open>good\<close> for a user has both
  credentials supplied and either an access credential that verifies for that user, or
  one that does not and a refresh credential that verifies for that user, whose stored
  \<open>tokenVersion\<close> is the one of the payload: no channel opens without authentication.
\<close>

theorem C5_rejected_handshake:
  "server_upgrade verify e fault h None s = (bad, s) \<and>
   (\<not> supplied (accessToken qs) \<or> \<not> supplied (refreshToken qs) \<longrightarrow>
      server_upgrade verify e fault h (Some qs) s = (bad, s)) \<and>
   (accessToken qs = Str a \<and> refreshToken qs = Str r \<and>
    verify a (ACCESS_TOKEN_SECRET e) = None \<and> verify r (REFRESH_TOKEN_SECRET e) = None \<longrightarrow>
      server_upgrade verify e fault h (Some qs) s = (bad, s)) \<and>
   (accessToken qs = Str a \<and> refreshToken qs = Str r \<and>
    verify a (ACCESS_TOKEN_SECRET e) = None \<and> verify r (REFRESH_TOKEN_SECRET e) = Some data \<and>
    (fault \<noteq> None \<or> user_tbl s (data_userId data) = None \<or>
     (\<exists>u. user_tbl s (data_userId data) = Some u \<and> tokenVersion u \<noteq> data_tokenVersion data)) \<longrightarrow>
      server_upgrade verify e fault h (Some qs) s = (bad, s)) \<and>
   (fst (server_upgrade verify e fault h q s) = bad \<longrightarrow>
      snd (server_upgrade verify e fault h q s) = s \<and>
      (q = None \<or>
       (\<exists>qs. q = Some qs \<and>
          (\<not> supplied (accessToken qs) \<or> \<not> supplied (refreshToken qs) \<or>
           (\<exists>a r. accessToken qs = Str a \<and> refreshToken qs = Str r \<and>
              verify a (ACCESS_TOKEN_SECRET e) = None \<and>
              (verify r (REFRESH_TOKEN_SECRET e) = None \<or>
               (\<exists>data. verify r (REFRESH_TOKEN_SECRET e) = Some data \<and>
                  (fault \<noteq> None \<or> user_tbl s (data_userId data) = None \<or>
                   (\<exists>u. user_tbl s (data_userId data) = Some u \<and>
                      tokenVersion u \<noteq> data_tokenVersion data))))))))) \<and>
   (fst (server_upgrade verify e fault h q s) = good uid \<longrightarrow>
      (\<exists>qs a r. q = Some qs \<and> accessToken qs = Str a \<and> refreshToken qs = Str r \<and>
         a \<noteq> [] \<and> r \<noteq> [] \<and>
         ((\<exists>data. verify a (ACCESS_TOKEN_SECRET e) = Some data \<and> data_userId data = uid) \<or>
          (verify a (ACCESS_TOKEN_SECRET e) = None \<and>
           (\<exists>data u. verify r (REFRESH_TOKEN_SECRET e) = Some data \<and> data_userId data = uid \<and>
              fault = None \<and> user_tbl s uid = Some u \<and>
              tokenVersion u = data_tokenVersion data)))))"
proof -
  have z: "server_upgrade verify e fault h None s = (bad, s)"
    by (simp add: upgrade_bad_state upgrade_unparsed)
  have a: "\<not> supplied (accessToken qs) \<or> \<not> supplied (refreshToken qs) \<longrightarrow>
      server_upgrade verify e fault h (Some qs) s = (bad, s)"
    using upgrade_not_supplied [of qs verify e fault s]
    by (auto intro: upgrade_bad_state)
  have b: "upgrade verify e fault s (Some qs) = bad"
    if "accessToken qs = Str a" "refreshToken qs = Str r"
      "verify a (ACCESS_TOKEN_SECRET e) = None" "verify r (REFRESH_TOKEN_SECRET e) = None"
  proof (cases "a = [] \<or> r = []")
    case True
    with that show ?thesis by (auto simp: upgrade_def)
  next
    case False
    with that show ?thesis by (simp add: upgrade_supplied)
  qed
  have c: "upgrade verify e fault s (Some qs) = bad"
    if "accessToken qs = Str a" "refreshToken qs = Str r"
      "verify a (ACCESS_TOKEN_SECRET e) = None" "verify r (REFRESH_TOKEN_SECRET e) = Some data"
      "fault \<noteq> None \<or> user_tbl s (data_userId data) = None \<or>
       (\<exists>u. user_tbl s (data_userId data) = Some u \<and> tokenVersion u \<noteq> data_tokenVersion data)"
  proof (cases "a = [] \<or> r = []")
    case True
    with that show ?thesis by (auto simp: upgrade_def)
  next
    case False
    with that show ?thesis by (auto simp: upgrade_supplied split: option.splits)
  qed
  have outcome: "fst (server_upgrade verify e fault h q s) = upgrade verify e fault s q"
    by (simp add: server_upgrade_def split: upgrade_outcome.splits)
  have d: "fst (server_upgrade verify e fault h q s) = bad \<longrightarrow>
      snd (server_upgrade verify e fault h q s) = s \<and>
      (q = None \<or>
       (\<exists>qs. q = Some qs \<and>
          (\<not> supplied (accessToken qs) \<or> \<not> supplied (refreshToken qs) \<or>
           (\<exists>a r. accessToken qs = Str a \<and> refreshToken qs = Str r \<and>
              verify a (ACCESS_TOKEN_SECRET e) = None \<and>
              (verify r (REFRESH_TOKEN_SECRET e) = None \<or>
               (\<exists>data. verify r (REFRESH_TOKEN_SECRET e) = Some data \<and>
                  (fault \<noteq> None \<or> user_tbl s (data_userId data) = None \<or>
                   (\<exists>u. user_tbl s (data_userId data) = Some u \<and>
                      tokenVersion u \<noteq> data_tokenVersion data))))))))"
  proof
    assume "fst (server_upgrade verify e fault h q s) = bad"
    with outcome have u: "upgrade verify e fault s q = bad" by simp
    from upgrade_bad_state [OF u, of h] upgrade_bad_cases [OF u]
    show "snd (server_upgrade verify e fault h q s) = s \<and>
      (q = None \<or>
       (\<exists>qs. q = Some qs \<and>
          (\<not> supplied (accessToken qs) \<or> \<not> supplied (refreshToken qs) \<or>
           (\<exists>a r. accessToken qs = Str a \<and> refreshToken qs = Str r \<and>
              verify a (ACCESS_TOKEN_SECRET e) = None \<and>
              (verify r (REFRESH_TOKEN_SECRET e) = None \<or>
               (\<exists>data. verify r (REFRESH_TOKEN_SECRET e) = Some data \<and>
                  (fault \<noteq> None \<or> user_tbl s (data_userId data) = None \<or>
                   (\<exists>u. user_tbl s (data_userId data) = Some u \<and>
                      tokenVersion u \<noteq> data_tokenVersion data))))))))"
      by simp
  qed
  have g: "fst (server_upgrade verify e fault h q s) = good uid \<longrightarrow>
      (\<exists>qs a r. q = Some qs \<and> accessToken qs = Str a \<and> refreshToken qs = Str r \<and>
         a \<noteq> [] \<and> r \<noteq> [] \<and>
         ((\<exists>data. verify a (ACCESS_TOKEN_SECRET e) = Some data \<and> data_userId data = uid) \<or>
          (verify a (ACCESS_TOKEN_SECRET e) = None \<and>
           (\<exists>data u. verify r (REFRESH_TOKEN_SECRET e) = Some data \<and> data_userId data = uid \<and>
              fault = None \<and> user_tbl s uid = Some u \<and>
              tokenVersion u = data_tokenVersion data))))"
    using outcome upgrade_good_cases [of verify e fault s q uid] by simp
  from a b c have abc:
    "(\<not> supplied (accessToken qs) \<or> \<not> supplied (refreshToken qs) \<longrightarrow>
      server_upgrade verify e fault h (Some qs) s = (bad, s)) \<and>
     (accessToken qs = Str a \<and> refreshToken qs = Str r \<and>
      verify a (ACCESS_TOKEN_SECRET e) = None \<and> verify r (REFRESH_TOKEN_SECRET e) = None \<longrightarrow>
        server_upgrade verify e fault h (Some qs) s = (bad, s)) \<and>
     (accessToken qs = Str a \<and> refreshToken qs = Str r \<and>
      verify a (ACCESS_TOKEN_SECRET e) = None \<and> verify r (REFRESH_TOKEN_SECRET e) = Some data \<and>
      (fault \<noteq> None \<or> user_tbl s (data_userId data) = None \<or>
       (\<exists>u. user_tbl s (data_userId data) = Some u \<and> tokenVersion u \<noteq> data_tokenVersion data)) \<longrightarrow>
        server_upgrade verify e fault h (Some qs) s = (bad, s))"
    by (auto intro!: upgrade_bad_state)
  from z abc d g show ?thesis by (intro conjI) (erule conjunct1 conjunct2 | assumption | blast)+
qed

theorem C5_witness:
  "\<not> supplied Undefined \<and> \<not> supplied (Arr [''x'', ''y'']) \<and> \<not> supplied (Str []) \<and>
   server_upgrade example_verify example_env None 7
     (Some \<lparr>accessToken = Undefined, refreshToken = Str ''refresh-u1-v2''\<rparr>) example_users =
     (bad, example_users) \<and>
   server_upgrade example_verify example_env None 7
     (Some \<lparr>accessToken = Str ''access-u1'', refreshToken = Arr [''x'', ''y'']\<rparr>) example_users =
     (bad, example_users) \<and>
   example_verify ''expired'' (ACCESS_TOKEN_SECRET example_env) = None \<and>
   example_verify ''forged'' (REFRESH_TOKEN_SECRET example_env) = None \<and>
   server_upgrade example_verify example_env None 7
     (Some \<lparr>accessToken = Str ''expired'', refreshToken = Str ''forged''\<rparr>) example_users =
     (bad, example_users) \<and>
   example_verify ''refresh-u1-v1'' (REFRESH_TOKEN_SECRET example_env) =
     Some \<lparr>data_userId = ''u1'', data_tokenVersion = 1\<rparr> \<and>
   user_tbl example_users ''u1'' = Some \<lparr>tokenVersion = 2, numLikes = 0\<rparr> \<and>
   server_upgrade example_verify example_env None 7
     (Some \<lparr>accessToken = Str ''expired'', refreshToken = Str ''refresh-u1-v1''\<rparr>) example_users =
     (bad, example_users) \<and>
   fst (server_upgrade example_verify example_env None 7
     (Some \<lparr>accessToken = Str ''expired'', refreshToken = Str ''refresh-u1-v2''\<rparr>) example_users) =
     good ''u1''"
proof -
  have hyps: "\<not> supplied Undefined \<and> \<not> supplied (Arr [''x'', ''y'']) \<and> \<not> supplied (Str []) \<and>
      example_verify ''expired'' (ACCESS_TOKEN_SECRET example_env) = None \<and>
      example_verify ''forged'' (REFRESH_TOKEN_SECRET example_env) = None \<and>
      example_verify ''refresh-u1-v1'' (REFRESH_TOKEN_SECRET example_env) =
        Some \<lparr>data_userId = ''u1'', data_tokenVersion = 1\<rparr> \<and>
      user_tbl example_users ''u1'' = Some \<lparr>tokenVersion = 2, numLikes = 0\<rparr>"
    by (simp add: supplied_def example_verify_def example_env_def example_users_def)
  have r1: "server_upgrade example_verify example_env None 7
      (Some \<lparr>accessToken = Undefined, refreshToken = Str ''refresh-u1-v2''\<rparr>) example_users =
      (bad, example_users)"
    using C5_rejected_handshake [of example_verify example_env None 7 example_users
        "\<lparr>accessToken = Undefined, refreshToken = Str ''refresh-u1-v2''\<rparr>"] hyps
    by simp
  have r2: "server_upgrade example_verify example_env None 7
      (Some \<lparr>accessToken = Str ''access-u1'', refreshToken = Arr [''x'', ''y'']\<rparr>) example_users =
      (bad, example_users)"
    using C5_rejected_handshake [of example_verify example_env None 7 example_users
        "\<lparr>accessToken = Str ''access-u1'', refreshToken = Arr [''x'', ''y'']\<rparr>"] hyps
    by simp
  have r3: "server_upgrade example_verify example_env None 7
      (Some \<lparr>accessToken = Str ''expired'', refreshToken = Str ''forged''\<rparr>) example_users =
      (bad, example_users)"
    using C5_rejected_handshake [of example_verify example_env None 7 example_users
        "\<lparr>accessToken = Str ''expired'', refreshToken = Str ''forged''\<rparr>"
        "''expired''" "''forged''"] hyps
    by simp
  have r4: "server_upgrade example_verify example_env None 7
      (Some \<lparr>accessToken = Str ''expired'', refreshToken = Str ''refresh-u1-v1''\<rparr>) example_users =
      (bad, example_users)"
    using C5_rejected_handshake [of example_verify example_env None 7 example_users
        "\<lparr>accessToken = Str ''expired'', refreshToken = Str ''refresh-u1-v1''\<rparr>"
        "''expired''" "''refresh-u1-v1''" "\<lparr>data_userId = ''u1'', data_tokenVersion = 1\<rparr>"] hyps
    by simp
  have ok: "fst (server_upgrade example_verify example_env None 7
      (Some \<lparr>accessToken = Str ''expired'', refreshToken = Str ''refresh-u1-v2''\<rparr>) example_users) =
      good ''u1''"
    by (simp add: server_upgrade_def upgrade_def example_verify_def example_env_def
        example_users_def)
  from hyps r1 r2 r3 r4 ok show ?thesis by blast
qed

section \<open>The quota of swipes\<close>

lemma view_limiter_opts_eq:
  "view_limiter_opts =
     \<lparr>execEvenly = Some False, blockDuration = Some 0, points = Some 100,
      duration = Some 86400, keyPrefix = Some ''rl/view/''\<rparr>"
  by (simp add: view_limiter_opts_def spread_def override_def defaultRateLimitOpts_def
      SECONDS_IN_A_DAY_def)

lemma view_limiter_key: "limiter_key view_limiter_opts actor = ''rl/view/'' @ actor"
  by (simp add: limiter_key_def view_limiter_opts_eq)

lemma other_limiter_keys:
  "o' \<in> set other_limiters \<Longrightarrow> limiter_key o' actor' \<noteq> limiter_key view_limiter_opts actor"
  by (auto simp: other_limiters_def route_limiter_opts_def spread_def override_def
      limiter_key_def view_limiter_opts_eq)

lemma consume_other_key:
  "k \<noteq> limiter_key opts actor \<Longrightarrow> snd (consume opts now actor store) k = store k"
  by (simp add: consume_def Let_def)

lemma attempts_other_key:
  "k \<noteq> limiter_key opts actor \<Longrightarrow> snd (attempts opts actor ts store) k = store k"
  by (induction ts arbitrary: store) (simp_all add: consume_other_key)

lemma view_consume_live:
  assumes "store (limiter_key view_limiter_opts actor) = Some x" and "now < expiresAt x"
  shows "consume view_limiter_opts now actor store =
           (consumed x < 100,
            store(limiter_key view_limiter_opts actor \<mapsto> x\<lparr>consumed := consumed x + 1\<rparr>))"
  using assms by (auto simp: consume_def Let_def current_entry_def view_limiter_opts_eq)

lemma view_consume_new:
  assumes "store (limiter_key view_limiter_opts actor) = None \<or>
           (\<exists>x. store (limiter_key view_limiter_opts actor) = Some x \<and> expiresAt x \<le> now)"
  shows "consume view_limiter_opts now actor store =
           (True,
            store(limiter_key view_limiter_opts actor \<mapsto> \<lparr>consumed = 1, expiresAt = now + 86400\<rparr>))"
  using assms by (auto simp: consume_def Let_def current_entry_def view_limiter_opts_eq)

lemma view_attempts_live:
  assumes "store (limiter_key view_limiter_opts actor) = Some x"
    and "\<forall>t \<in> set ts. t < expiresAt x"
  shows "attempts view_limiter_opts actor ts store =
           (map (\<lambda>i. consumed x + i < 100) [0..<length ts],
            store(limiter_key view_limiter_opts actor \<mapsto> x\<lparr>consumed := consumed x + length ts\<rparr>))"
  using assms
proof (induction ts arbitrary: store x)
  case Nil
  then have "store(limiter_key view_limiter_opts actor \<mapsto> x) = store"
    by (simp add: map_upd_triv)
  then show ?case by simp
next
  case (Cons t ts)
  let ?k = "limiter_key view_limiter_opts actor"
  let ?x' = "x\<lparr>consumed := consumed x + 1\<rparr>"
  let ?store' = "store(?k \<mapsto> ?x')"
  from Cons.prems have step: "consume view_limiter_opts t actor store = (consumed x < 100, ?store')"
    by (simp add: view_consume_live)
  have "?store' ?k = Some ?x'" by simp
  moreover from Cons.prems have "\<forall>t \<in> set ts. t < expiresAt ?x'" by simp
  ultimately have rest: "attempts view_limiter_opts actor ts ?store' =
      (map (\<lambda>i. consumed ?x' + i < 100) [0..<length ts],
       ?store'(?k \<mapsto> ?x'\<lparr>consumed := consumed ?x' + length ts\<rparr>))"
    by (rule Cons.IH)
  have flags: "(consumed x < 100) # map (\<lambda>i. consumed ?x' + i < 100) [0..<length ts] =
      map (\<lambda>i. consumed x + i < 100) [0..<length (t # ts)]"
    by (simp add: map_upt_Suc del: upt_Suc)
  have entry: "?store'(?k \<mapsto> ?x'\<lparr>consumed := consumed ?x' + length ts\<rparr>) =
      store(?k \<mapsto> x\<lparr>consumed := consumed x + length (t # ts)\<rparr>)"
    by simp
  have "attempts view_limiter_opts actor (t # ts) store =
      ((consumed x < 100) # map (\<lambda>i. consumed ?x' + i < 100) [0..<length ts],
       ?store'(?k \<mapsto> ?x'\<lparr>consumed := consumed ?x' + length ts\<rparr>))"
    by (simp only: attempts.simps step rest fst_conv snd_conv)
  then show ?case
    by (simp only: flags entry)
qed

lemma all_rejected:
  "100 \<le> (c::nat) \<Longrightarrow> map (\<lambda>i. c + i < 100) [0..<n] = replicate n False"
  by (simp add: list_eq_iff_nth_eq)

text \<open>
  C8, amended. The quota of swipes overrides the default block duration of one day with
  0: 100 points in a window of one day and no block, so the block duration is not longer
  than the window. An attempt inside the running window is admitted exactly when fewer
  than 100 points are consumed, and counts one more point whether admitted or not, with
  the end of the window unchanged; an attempt with no window running is admitted and starts
  a window of one day with one point. So of any attempts inside a running window the
  ones that find fewer than 100 points consumed are admitted and the others rejected: once
  the 100 points are consumed every further swipe of the actor is rejected until the window
  ends, and no longer. The attempts of an actor leave the counters of every other key as
  they were: those of the swipes of another actor, and those of every other route's
  limiter for any actor.
\<close>

theorem C8_swipe_quota:
  "blockDuration view_limiter_opts = Some 0 \<and>
   duration view_limiter_opts = Some 86400 \<and>
   points view_limiter_opts = Some 100 \<and>
   \<not> block_longer_than_window view_limiter_opts \<and>
   (store (limiter_key view_limiter_opts actor) = Some x \<and> now < expiresAt x \<longrightarrow>
      consume view_limiter_opts now actor store =
        (consumed x < 100,
         store(limiter_key view_limiter_opts actor \<mapsto> x\<lparr>consumed := consumed x + 1\<rparr>))) \<and>
   (store (limiter_key view_limiter_opts actor) = None \<or>
    (store (limiter_key view_limiter_opts actor) = Some x \<and> expiresAt x \<le> now) \<longrightarrow>
      consume view_limiter_opts now actor store =
        (True,
         store(limiter_key view_limiter_opts actor \<mapsto> \<lparr>consumed = 1, expiresAt = now + 86400\<rparr>))) \<and>
   (store (limiter_key view_limiter_opts actor) = Some x \<and> (\<forall>t \<in> set ts. t < expiresAt x) \<longrightarrow>
      attempts view_limiter_opts actor ts store =
        (map (\<lambda>i. consumed x + i < 100) [0..<length ts],
         store(limiter_key view_limiter_opts actor \<mapsto> x\<lparr>consumed := consumed x + length ts\<rparr>))) \<and>
   (store (limiter_key view_limiter_opts actor) = Some x \<and> (\<forall>t \<in> set ts. t < expiresAt x) \<and>
    100 \<le> consumed x \<longrightarrow>
      fst (attempts view_limiter_opts actor ts store) = replicate (length ts) False) \<and>
   (k \<noteq> limiter_key view_limiter_opts actor \<longrightarrow>
      snd (attempts view_limiter_opts actor ts store) k = store k) \<and>
   (actor' \<noteq> actor \<longrightarrow>
      snd (attempts view_limiter_opts actor ts store) (limiter_key view_limiter_opts actor') =
        store (limiter_key view_limiter_opts actor')) \<and>
   (\<forall>o' \<in> set other_limiters.
      snd (attempts view_limiter_opts actor ts store) (limiter_key o' actor') =
        store (limiter_key o' actor'))"
proof -
  have opts: "blockDuration view_limiter_opts = Some 0 \<and>
      duration view_limiter_opts = Some 86400 \<and> points view_limiter_opts = Some 100 \<and>
      \<not> block_longer_than_window view_limiter_opts"
    by (simp add: view_limiter_opts_eq block_longer_than_window_def)
  have live: "store (limiter_key view_limiter_opts actor) = Some x \<and> now < expiresAt x \<longrightarrow>
      consume view_limiter_opts now actor store =
        (consumed x < 100,
         store(limiter_key view_limiter_opts actor \<mapsto> x\<lparr>consumed := consumed x + 1\<rparr>))"
    by (simp add: view_consume_live)
  have new: "store (limiter_key view_limiter_opts actor) = None \<or>
      (store (limiter_key view_limiter_opts actor) = Some x \<and> expiresAt x \<le> now) \<longrightarrow>
      consume view_limiter_opts now actor store =
        (True,
         store(limiter_key view_limiter_opts actor \<mapsto> \<lparr>consumed = 1, expiresAt = now + 86400\<rparr>))"
    using view_consume_new [of store actor now] by blast
  have many: "store (limiter_key view_limiter_opts actor) = Some x \<and>
      (\<forall>t \<in> set ts. t < expiresAt x) \<longrightarrow>
      attempts view_limiter_opts actor ts store =
        (map (\<lambda>i. consumed x + i < 100) [0..<length ts],
         store(limiter_key view_limiter_opts actor \<mapsto> x\<lparr>consumed := consumed x + length ts\<rparr>))"
    by (simp add: view_attempts_live)
  have locked: "store (limiter_key view_limiter_opts actor) = Some x \<and>
      (\<forall>t \<in> set ts. t < expiresAt x) \<and> 100 \<le> consumed x \<longrightarrow>
      fst (attempts view_limiter_opts actor ts store) = replicate (length ts) False"
  proof (intro impI, elim conjE)
    assume e: "store (limiter_key view_limiter_opts actor) = Some x"
      and w: "\<forall>t \<in> set ts. t < expiresAt x" and full: "100 \<le> consumed x"
    from full have "map (\<lambda>i. consumed x + i < 100) [0..<length ts] = replicate (length ts) False"
      by (rule all_rejected)
    with view_attempts_live [of store actor x ts] e w
    show "fst (attempts view_limiter_opts actor ts store) = replicate (length ts) False"
      by simp
  qed
  have key: "k \<noteq> limiter_key view_limiter_opts actor \<longrightarrow>
      snd (attempts view_limiter_opts actor ts store) k = store k"
    by (simp add: attempts_other_key)
  have actor: "actor' \<noteq> actor \<longrightarrow>
      snd (attempts view_limiter_opts actor ts store) (limiter_key view_limiter_opts actor') =
        store (limiter_key view_limiter_opts actor')"
    by (simp add: attempts_other_key view_limiter_key)
  have others: "\<forall>o' \<in> set other_limiters.
      snd (attempts view_limiter_opts actor ts store) (limiter_key o' actor') =
        store (limiter_key o' actor')"
    by (simp add: attempts_other_key other_limiter_keys)
  from opts live new many locked key actor others show ?thesis
    by (intro conjI) (erule conjunct1 conjunct2 | assumption | blast)+
qed

theorem C8_witness:
  "fst (attempts view_limiter_opts ''u1'' [10, 20, 30]
      [''rl/view/u1'' \<mapsto> \<lparr>consumed = 99, expiresAt = 86400\<rparr>]) = [True, False, False] \<and>
   snd (attempts view_limiter_opts ''u1'' [10, 20, 30]
      [''rl/view/u1'' \<mapsto> \<lparr>consumed = 99, expiresAt = 86400\<rparr>]) ''rl/view/u1'' =
     Some \<lparr>consumed = 102, expiresAt = 86400\<rparr> \<and>
   fst (attempts view_limiter_opts ''u1'' [40, 86399]
      [''rl/view/u1'' \<mapsto> \<lparr>consumed = 102, expiresAt = 86400\<rparr>]) = [False, False] \<and>
   fst (consume view_limiter_opts 86400 ''u1''
      [''rl/view/u1'' \<mapsto> \<lparr>consumed = 104, expiresAt = 86400\<rparr>]) \<and>
   snd (consume view_limiter_opts 86400 ''u1''
      [''rl/view/u1'' \<mapsto> \<lparr>consumed = 104, expiresAt = 86400\<rparr>]) ''rl/view/u1'' =
     Some \<lparr>consumed = 1, expiresAt = 172800\<rparr> \<and>
   snd (attempts view_limiter_opts ''u1'' [10, 20, 30]
      [''rl/view/u1'' \<mapsto> \<lparr>consumed = 99, expiresAt = 86400\<rparr>]) ''rl/view/u2'' = None"
proof -
  let ?s99 = "[''rl/view/u1'' \<mapsto> \<lparr>consumed = 99, expiresAt = 86400\<rparr>]"
  let ?s102 = "[''rl/view/u1'' \<mapsto> \<lparr>consumed = 102, expiresAt = 86400\<rparr>]"
  let ?s104 = "[''rl/view/u1'' \<mapsto> \<lparr>consumed = 104, expiresAt = 86400\<rparr>]"
  have key: "limiter_key view_limiter_opts ''u1'' = ''rl/view/u1''"
    by (simp add: view_limiter_key)
  have h99: "?s99 (limiter_key view_limiter_opts ''u1'') = Some \<lparr>consumed = 99, expiresAt = 86400\<rparr> \<and>
      (\<forall>t \<in> set [10, 20, 30]. t < expiresAt \<lparr>consumed = 99, expiresAt = 86400\<rparr>)"
    by (simp add: key)
  with C8_swipe_quota [of ?s99 "''u1''" "\<lparr>consumed = 99, expiresAt = 86400\<rparr>" 0 "[10, 20, 30]"
      "''rl/view/u2''" "''u2''"]
  have a: "attempts view_limiter_opts ''u1'' [10, 20, 30] ?s99 =
      (map (\<lambda>i. consumed \<lparr>consumed = 99, expiresAt = 86400\<rparr> + i < 100) [0..<length [10, 20, 30 :: nat]],
       ?s99(limiter_key view_limiter_opts ''u1'' \<mapsto>
         \<lparr>consumed = 99, expiresAt = 86400\<rparr>\<lparr>consumed :=
            consumed \<lparr>consumed = 99, expiresAt = 86400\<rparr> + length [10, 20, 30 :: nat]\<rparr>))"
    by blast
  have flags: "map (\<lambda>i. consumed \<lparr>consumed = 99, expiresAt = 86400\<rparr> + i < 100)
      [0..<length [10, 20, 30 :: nat]] = [True, False, False]"
    by (simp add: upt_rec)
  have a1: "fst (attempts view_limiter_opts ''u1'' [10, 20, 30] ?s99) = [True, False, False]"
    by (simp only: a flags fst_conv)
  have a2: "snd (attempts view_limiter_opts ''u1'' [10, 20, 30] ?s99) ''rl/view/u1'' =
      Some \<lparr>consumed = 102, expiresAt = 86400\<rparr>"
    by (simp only: a snd_conv key) simp
  have a3: "snd (attempts view_limiter_opts ''u1'' [10, 20, 30] ?s99) ''rl/view/u2'' = None"
    by (simp only: a snd_conv key) simp
  have h102: "?s102 (limiter_key view_limiter_opts ''u1'') = Some \<lparr>consumed = 102, expiresAt = 86400\<rparr> \<and>
      (\<forall>t \<in> set [40, 86399]. t < expiresAt \<lparr>consumed = 102, expiresAt = 86400\<rparr>) \<and>
      100 \<le> consumed \<lparr>consumed = 102, expiresAt = 86400\<rparr>"
    by (simp add: key)
  with C8_swipe_quota [of ?s102 "''u1''" "\<lparr>consumed = 102, expiresAt = 86400\<rparr>" 0 "[40, 86399]"
      "''rl/view/u2''" "''u2''"]
  have "fst (attempts view_limiter_opts ''u1'' [40, 86399] ?s102) = replicate (length [40, 86399 :: nat]) False"
    by blast
  then have b1: "fst (attempts view_limiter_opts ''u1'' [40, 86399] ?s102) = [False, False]"
    by (simp del: attempts.simps add: numeral_2_eq_2)
  have h104: "?s104 (limiter_key view_limiter_opts ''u1'') = Some \<lparr>consumed = 104, expiresAt = 86400\<rparr> \<and>
      expiresAt \<lparr>consumed = 104, expiresAt = 86400\<rparr> \<le> 86400"
    by (simp add: key)
  with C8_swipe_quota [of ?s104 "''u1''" "\<lparr>consumed = 104, expiresAt = 86400\<rparr>" 86400 "[]"
      "''rl/view/u2''" "''u2''"]
  have c: "consume view_limiter_opts 86400 ''u1'' ?s104 =
      (True, ?s104(limiter_key view_limiter_opts ''u1'' \<mapsto> \<lparr>consumed = 1, expiresAt = 86400 + 86400\<rparr>))"
    by blast
  have c1: "fst (consume view_limiter_opts 86400 ''u1'' ?s104)"
    by (simp only: c fst_conv)
  have c2: "snd (consume view_limiter_opts 86400 ''u1'' ?s104) ''rl/view/u1'' =
      Some \<lparr>consumed = 1, expiresAt = 172800\<rparr>"
    by (simp only: c snd_conv key) simp
  from a1 a2 b1 c1 c2 a3 show ?thesis by blast
qed

text \<open>
  The claim as stated fails: the block duration the quota of swipes declares is 0, and its
  window is a day. An attempt at the end of the window is admitted, though the attempts
  before it were rejected.
\<close>

theorem C8_counterexample:
  "blockDuration view_limiter_opts = Some 0 \<and> duration view_limiter_opts = Some 86400 \<and>
   \<not> block_longer_than_window view_limiter_opts \<and>
   fst (attempts view_limiter_opts ''u1'' [86300, 86400]
      [''rl/view/u1'' \<mapsto> \<lparr>consumed = 100, expiresAt = 86400\<rparr>]) = [False, True]"
  by (simp add: view_limiter_opts_eq block_longer_than_window_def consume_def Let_def
      current_entry_def limiter_key_def)

end
